theory Spec2Isabelle
  imports Complex_Main "HOL-Library.Word"
begin

section \<open>JavaScript numbers and typed-array stores\<close>

text \<open>
  Sample values are JavaScript numbers read from a \<open>Float32Array\<close>. A finite value is
  a real (every finite float32 is a rational, and its product with \<open>32768\<close>, \<open>32767\<close> or
  \<open>32767.5\<close> is exact in a double, so the arithmetic below is exact); \<open>NaN\<close> is kept
  as a value of its own because \<open>Math.min\<close>, \<open>Math.max\<close>, \<open><\<close> and the integer
  stores treat it specially. The infinities behave as any finite value beyond the clamp
  and are not modelled separately.
\<close>

datatype jsnum = Num real | NaN

fun Math_min :: "jsnum \<Rightarrow> jsnum \<Rightarrow> jsnum" where
  "Math_min (Num a) (Num b) = Num (min a b)"
| "Math_min _ _ = NaN"

fun Math_max :: "jsnum \<Rightarrow> jsnum \<Rightarrow> jsnum" where
  "Math_max (Num a) (Num b) = Num (max a b)"
| "Math_max _ _ = NaN"

fun js_less :: "jsnum \<Rightarrow> jsnum \<Rightarrow> bool" where
  "js_less (Num a) (Num b) = (a < b)"
| "js_less _ _ = False"

fun js_times :: "jsnum \<Rightarrow> jsnum \<Rightarrow> jsnum" where
  "js_times (Num a) (Num b) = Num (a * b)"
| "js_times _ _ = NaN"

text \<open>Truncation towards zero, the first step of every integer conversion.\<close>

definition trunc :: "real \<Rightarrow> int" where
  "trunc r = (if r < 0 then \<lceil>r\<rceil> else \<lfloor>r\<rfloor>)"

text \<open>
  \<open>ToInt16\<close>, applied by \<open>DataView.setInt16\<close> and by a store into an \<open>Int16Array\<close>:
  \<open>NaN\<close> becomes 0, anything else is truncated and reduced modulo \<open>2^16\<close> into the
  signed range.
\<close>

definition ToInt16 :: "jsnum \<Rightarrow> int" where
  "ToInt16 v =
     (case v of
        NaN \<Rightarrow> 0
      | Num r \<Rightarrow> (let k = trunc r mod 65536 in if 32768 \<le> k then k - 65536 else k))"

text \<open>
  \<open>ToUint32\<close> of a real number: truncation, then reduction modulo \<open>2^32\<close>. This is
  the conversion Web IDL applies to an \<open>unsigned long\<close> argument.
\<close>

definition ToUint32 :: "real \<Rightarrow> nat" where
  "ToUint32 r = nat (trunc r mod 4294967296)"

text \<open>
  Arithmetic on doubles. The result of \<open>-\<close>, \<open>*\<close> or \<open>/\<close> on two doubles is the
  exact result rounded to the nearest double, ties to even; \<open>binary64\<close> is that
  rounding, to 53 significant bits. The exponent range is left unbounded: overflow to
  \<open>Infinity\<close> (beyond \<open>2^1024\<close>) and gradual underflow (below \<open>2^-1022\<close>) are not
  modelled. \<open>Math.pow\<close> is implementation-approximated; the functions that call it
  take it as the parameter \<open>Math_pow\<close>.
\<close>

definition roundEven :: "real \<Rightarrow> int" where
  "roundEven x =
     (let f = \<lfloor>x\<rfloor>
      in if x - of_int f < 1 / 2 then f
         else if 1 / 2 < x - of_int f then f + 1
         else if even f then f else f + 1)"

definition binary64 :: "real \<Rightarrow> real" where
  "binary64 r =
     (if r = 0 then 0
      else (let q = 2 powr of_int (\<lfloor>log 2 \<bar>r\<bar>\<rfloor> - 52)
            in of_int (roundEven (r / q)) * q))"

text \<open>
  Reading a typed array out of range gives \<open>undefined\<close>, which a \<open>Float32Array\<close>
  stores as \<open>NaN\<close>; writing a typed array out of range is ignored.
\<close>

definition elem :: "jsnum list \<Rightarrow> nat \<Rightarrow> jsnum" where
  "elem xs i = (if i < length xs then xs ! i else NaN)"

definition store :: "'a list \<Rightarrow> nat \<Rightarrow> 'a \<Rightarrow> 'a list" where
  "store xs i v = (if i < length xs then xs[i := v] else xs)"

section \<open>Errors\<close>

datatype error = RangeError | IndexSizeError | NotSupportedError | TypeError | Error string

definition and_then :: "error + 'a \<Rightarrow> ('a \<Rightarrow> error + 'b) \<Rightarrow> error + 'b" where
  "and_then r f = (case r of Inl e \<Rightarrow> Inl e | Inr x \<Rightarrow> f x)"

section \<open>DataView\<close>

text \<open>
  The contents of an \<open>ArrayBuffer\<close> seen through a \<open>DataView\<close>: a list of octets.
  The four octets written by \<open>setFloat32\<close> are kept symbolic (\<open>Float32Byte x k\<close> is
  octet \<open>k\<close> of the little-endian IEEE 754 binary32 encoding of \<open>x\<close>). Every setter
  raises \<open>RangeError\<close> when the octets do not fit into the view.
\<close>

datatype octet = Byte "8 word" | Float32Byte jsnum nat

definition setBytes :: "octet list \<Rightarrow> nat \<Rightarrow> octet list \<Rightarrow> error + octet list" where
  "setBytes view byteOffset bs =
     (if byteOffset + length bs \<le> length view
      then Inr (take byteOffset view @ bs @ drop (byteOffset + length bs) view)
      else Inl RangeError)"

definition setUint8 :: "octet list \<Rightarrow> nat \<Rightarrow> nat \<Rightarrow> error + octet list" where
  "setUint8 view byteOffset n = setBytes view byteOffset [Byte (of_nat n)]"

text \<open>
  The multi-byte setters are always called with \<open>littleEndian = true\<close>. The octets
  listed are the low octets of the value, that is those of the value reduced modulo
  \<open>2^16\<close> or \<open>2^32\<close>, as the setters convert it.
\<close>

definition le16 :: "nat \<Rightarrow> octet list" where
  "le16 n = [Byte (of_nat n), Byte (of_nat (n div 256))]"

definition le32 :: "nat \<Rightarrow> octet list" where
  "le32 n = [Byte (of_nat n), Byte (of_nat (n div 256)),
             Byte (of_nat (n div 65536)), Byte (of_nat (n div 16777216))]"

definition int16_le :: "int \<Rightarrow> octet list" where
  "int16_le k = [Byte (of_int k), Byte (of_int (k div 256))]"

text \<open>The octets of an ASCII string, one per character code.\<close>

definition ascii :: "string \<Rightarrow> octet list" where
  "ascii s = map (\<lambda>c. Byte (of_nat (of_char c))) s"

definition setUint16 :: "octet list \<Rightarrow> nat \<Rightarrow> nat \<Rightarrow> error + octet list" where
  "setUint16 view byteOffset n = setBytes view byteOffset (le16 n)"

definition setUint32 :: "octet list \<Rightarrow> nat \<Rightarrow> nat \<Rightarrow> error + octet list" where
  "setUint32 view byteOffset n = setBytes view byteOffset (le32 n)"

definition setInt16 :: "octet list \<Rightarrow> nat \<Rightarrow> jsnum \<Rightarrow> error + octet list" where
  "setInt16 view byteOffset v = setBytes view byteOffset (int16_le (ToInt16 v))"

definition float32_le :: "jsnum \<Rightarrow> octet list" where
  "float32_le x = map (Float32Byte x) [0, 1, 2, 3]"

definition setFloat32 :: "octet list \<Rightarrow> nat \<Rightarrow> jsnum \<Rightarrow> error + octet list" where
  "setFloat32 view byteOffset x = setBytes view byteOffset (float32_le x)"

section \<open>services/audioUtils.ts: the WAV encoder\<close>

record Blob =
  blob_parts :: "octet list"
  blob_type :: string

text \<open>
  An \<open>AudioBuffer\<close>: its sample rate (a whole number of hertz), its \<open>length\<close> in
  sample frames and one \<open>Float32Array\<close> per channel. \<open>getChannelData\<close> raises
  \<open>IndexSizeError\<close> for a channel that does not exist.
\<close>

record AudioBuffer =
  sampleRate :: nat
  frames :: nat
  channelData :: "jsnum list list"

definition numberOfChannels :: "AudioBuffer \<Rightarrow> nat" where
  "numberOfChannels buffer = length (channelData buffer)"

definition getChannelData :: "AudioBuffer \<Rightarrow> nat \<Rightarrow> error + jsnum list" where
  "getChannelData buffer i =
     (if i < numberOfChannels buffer then Inr (channelData buffer ! i) else Inl IndexSizeError)"

text \<open>The platform's invariant: at least one channel, all of the buffer's length.\<close>

definition wf_buffer :: "AudioBuffer \<Rightarrow> bool" where
  "wf_buffer buffer \<longleftrightarrow>
     channelData buffer \<noteq> [] \<and> list_all (\<lambda>c. length c = frames buffer) (channelData buffer)"

fun writeString :: "octet list \<Rightarrow> nat \<Rightarrow> string \<Rightarrow> error + octet list" where
  "writeString view offset [] = Inr view"
| "writeString view offset (c # cs) =
     and_then (setUint8 view offset (of_char c)) (\<lambda>view. writeString view (offset + 1) cs)"

function interleave_loop ::
  "jsnum list \<Rightarrow> jsnum list \<Rightarrow> nat \<Rightarrow> nat \<Rightarrow> nat \<Rightarrow> jsnum list \<Rightarrow> jsnum list" where
  "interleave_loop inputL inputR len index inputIndex result =
     (if index < len
      then interleave_loop inputL inputR len (index + 2) (inputIndex + 1)
             (store (store result index (elem inputL inputIndex))
                (index + 1) (elem inputR inputIndex))
      else result)"
  by pat_completeness auto
termination
  by (relation "measure (\<lambda>(inputL, inputR, len, index, inputIndex, result). len - index)") auto

definition interleave :: "jsnum list \<Rightarrow> jsnum list \<Rightarrow> jsnum list" where
  "interleave inputL inputR =
     (let len = length inputL + length inputR
      in interleave_loop inputL inputR len 0 0 (replicate len (Num 0)))"

text \<open>The value \<open>floatTo16BitPCM\<close> hands to \<open>setInt16\<close> for one sample.\<close>

definition pcm16 :: "jsnum \<Rightarrow> jsnum" where
  "pcm16 x =
     (let s = Math_max (Num (- 1)) (Math_min (Num 1) x)
      in if js_less s (Num 0) then js_times s (Num 32768) else js_times s (Num 32767))"

fun floatTo16BitPCM :: "octet list \<Rightarrow> nat \<Rightarrow> jsnum list \<Rightarrow> error + octet list" where
  "floatTo16BitPCM output offset [] = Inr output"
| "floatTo16BitPCM output offset (x # xs) =
     and_then (setInt16 output offset (pcm16 x))
       (\<lambda>output. floatTo16BitPCM output (offset + 2) xs)"

fun writeFloat32 :: "octet list \<Rightarrow> nat \<Rightarrow> jsnum list \<Rightarrow> error + octet list" where
  "writeFloat32 output offset [] = Inr output"
| "writeFloat32 output offset (x # xs) =
     and_then (setFloat32 output offset x)
       (\<lambda>output. writeFloat32 output (offset + 4) xs)"

text \<open>
  \<open>encodeWAV\<close> is only called with \<open>bitDepth\<close> 16 or 32, where \<open>bitDepth / 8\<close> is
  the integer quotient.
\<close>

definition encodeWAV :: "jsnum list \<Rightarrow> nat \<Rightarrow> nat \<Rightarrow> nat \<Rightarrow> nat \<Rightarrow> error + Blob" where
  "encodeWAV samples format rate numChannels bitDepth =
     (let bytesPerSample = bitDepth div 8;
          blockAlign = numChannels * bytesPerSample;
          view = replicate (44 + length samples * bytesPerSample) (Byte 0)
      in
      and_then (writeString view 0 ''RIFF'') (\<lambda>view.
      and_then (setUint32 view 4 (36 + length samples * bytesPerSample)) (\<lambda>view.
      and_then (writeString view 8 ''WAVE'') (\<lambda>view.
      and_then (writeString view 12 ''fmt '') (\<lambda>view.
      and_then (setUint32 view 16 16) (\<lambda>view.
      and_then (setUint16 view 20 format) (\<lambda>view.
      and_then (setUint16 view 22 numChannels) (\<lambda>view.
      and_then (setUint32 view 24 rate) (\<lambda>view.
      and_then (setUint32 view 28 (rate * blockAlign)) (\<lambda>view.
      and_then (setUint16 view 32 blockAlign) (\<lambda>view.
      and_then (setUint16 view 34 bitDepth) (\<lambda>view.
      and_then (writeString view 36 ''data'') (\<lambda>view.
      and_then (setUint32 view 40 (length samples * bytesPerSample)) (\<lambda>view.
      and_then (if format = 1 then floatTo16BitPCM view 44 samples
                else writeFloat32 view 44 samples) (\<lambda>view.
      Inr \<lparr>blob_parts = view, blob_type = ''audio/wav''\<rparr>)))))))))))))))"

definition audioBufferToWav :: "AudioBuffer \<Rightarrow> bool \<Rightarrow> error + Blob" where
  "audioBufferToWav buffer float32 =
     (let numChannels = numberOfChannels buffer;
          format = (if float32 then 3 else 1);
          bitDepth = (if format = 3 then 32 else 16)
      in
      and_then
        (if numChannels = 2
         then and_then (getChannelData buffer 0) (\<lambda>inputL.
              and_then (getChannelData buffer 1) (\<lambda>inputR.
              Inr (interleave inputL inputR)))
         else getChannelData buffer 0)
        (\<lambda>result. encodeWAV result format (sampleRate buffer) numChannels bitDepth))"

section \<open>services/audioUtils.ts: the MP3 adapter\<close>

text \<open>
  \<open>window.lamejs\<close> is an external library, present or not. When present it offers the
  \<open>Mp3Encoder\<close> constructor (channels, sample rate, kbps) and, on the encoder object,
  \<open>encodeBuffer\<close> (left samples and, when the adapter passes them, right samples) and
  \<open>flush\<close>. The encoder's state is threaded explicitly; what the library computes is
  left open, and each of its three operations may raise an error instead of returning.
\<close>

record 'st Lamejs =
  Mp3Encoder :: "nat \<Rightarrow> nat \<Rightarrow> nat \<Rightarrow> error + 'st"
  encodeBuffer :: "'st \<Rightarrow> int list \<Rightarrow> int list option \<Rightarrow> error + 8 word list \<times> 'st"
  flush :: "'st \<Rightarrow> error + 8 word list"

text \<open>The value stored into the \<open>Int16Array\<close> for one sample.\<close>

definition mp3Sample :: "jsnum \<Rightarrow> jsnum" where
  "mp3Sample x = js_times (Math_max (Num (- 1)) (Math_min (Num 1) x)) (Num (65535 / 2))"

text \<open>
  The conversion loop \<open>for (i = 0; i < data.length; i++) sample[i] = \<dots>\<close> over an
  \<open>Int16Array\<close> of \<open>buffer.length\<close> zeros.
\<close>

fun convertLoop :: "int list \<Rightarrow> nat \<Rightarrow> jsnum list \<Rightarrow> int list" where
  "convertLoop sample i [] = sample"
| "convertLoop sample i (x # xs) =
     convertLoop (store sample i (ToInt16 (mp3Sample x))) (i + 1) xs"

definition audioBufferToMp3 :: "'st Lamejs option \<Rightarrow> AudioBuffer \<Rightarrow> error + Blob" where
  "audioBufferToMp3 lamejs buffer =
     (case lamejs of
        None \<Rightarrow> Inl (Error ''lamejs library not loaded'')
      | Some lame \<Rightarrow>
          (let channels = numberOfChannels buffer;
               kbps = 192
           in
           and_then (Mp3Encoder lame channels (sampleRate buffer) kbps) (\<lambda>mp3encoder.
           and_then (getChannelData buffer 0) (\<lambda>dataLeft.
           let sampleLeft = convertLoop (replicate (frames buffer) 0) 0 dataLeft
           in
           and_then
             (if channels = 2
              then and_then (getChannelData buffer 1) (\<lambda>dataRight.
                   let sampleRight = convertLoop (replicate (frames buffer) 0) 0 dataRight
                   in encodeBuffer lame mp3encoder sampleLeft (Some sampleRight))
              else encodeBuffer lame mp3encoder sampleLeft None)
             (\<lambda>(sampleBlock, mp3encoder).
                let mp3Data = (if length sampleBlock > 0 then [sampleBlock] else [])
                in
                and_then (flush lame mp3encoder) (\<lambda>endBlock.
                let mp3Data = (if length endBlock > 0 then mp3Data @ [endBlock] else mp3Data)
                in Inr \<lparr>blob_parts = map Byte (concat mp3Data),
                        blob_type = ''audio/mp3''\<rparr>))))))"

section \<open>The gain parameter's automation timeline\<close>

text \<open>
  The Web Audio \<open>AudioParam\<close> keeps a list of automation events ordered by time; an
  event scheduled at the time of an existing one goes after it. \<open>setValueAtTime v t\<close>
  holds \<open>v\<close> from \<open>t\<close> on; \<open>linearRampToValueAtTime v t\<close> interpolates linearly
  from the previous event's value and time to \<open>v\<close> at \<open>t\<close> and holds \<open>v\<close>
  afterwards. Both raise \<open>RangeError\<close> for a negative time.
\<close>

datatype AutomationEvent = SetValue real real | LinearRamp real real


fun eventTime :: "AutomationEvent \<Rightarrow> real" where
  "eventTime (SetValue v t) = t"
| "eventTime (LinearRamp v t) = t"

fun insertEvent :: "AutomationEvent \<Rightarrow> AutomationEvent list \<Rightarrow> AutomationEvent list" where
  "insertEvent e [] = [e]"
| "insertEvent e (x # xs) =
     (if eventTime x \<le> eventTime e then x # insertEvent e xs else e # x # xs)"

definition setValueAtTime ::
  "real \<Rightarrow> real \<Rightarrow> AutomationEvent list \<Rightarrow> error + AutomationEvent list" where
  "setValueAtTime v t events =
     (if t < 0 then Inl RangeError else Inr (insertEvent (SetValue v t) events))"

definition linearRampToValueAtTime ::
  "real \<Rightarrow> real \<Rightarrow> AutomationEvent list \<Rightarrow> error + AutomationEvent list" where
  "linearRampToValueAtTime v t events =
     (if t < 0 then Inl RangeError else Inr (insertEvent (LinearRamp v t) events))"



section \<open>components/WaveformEditor.tsx: rendering a region\<close>

datatype ExportFormat = Wav | Mp3

record EditorState =
  audioBuffer :: AudioBuffer
  region_start :: real
  region_end :: real
  speed :: real
  pitch :: real
  volume :: real
  fadeInDuration :: real
  fadeOutDuration :: real
  exportFormat :: ExportFormat
  fileName :: string

text \<open>
  The offline context as \<open>processAudioRegion\<close> has configured it when it calls
  \<open>startRendering\<close>: the context's channel count, length in frames and sample rate,
  the buffer source's settings and the gain node's automation events.
\<close>

record OfflineCtx =
  ctx_numberOfChannels :: nat
  ctx_length :: nat
  ctx_sampleRate :: nat
  source_buffer :: AudioBuffer
  source_playbackRate :: real
  source_detune :: real
  source_when :: real
  source_offset :: real
  source_duration :: real
  gain_events :: "AutomationEvent list"

text \<open>
  The constructor \<open>new OfflineAudioContext(numberOfChannels, length, sampleRate)\<close>:
  \<open>length\<close> is an \<open>unsigned long\<close>, so the number passed is converted by
  \<open>ToUint32\<close>; a context of no channels or of length 0 is refused.
\<close>

definition newOfflineAudioContext :: "nat \<Rightarrow> real \<Rightarrow> nat \<Rightarrow> error + nat \<times> nat \<times> nat" where
  "newOfflineAudioContext channels len rate =
     (if channels = 0 \<or> ToUint32 len = 0 then Inl NotSupportedError
      else Inr (channels, ToUint32 len, rate))"

text \<open>
  \<open>source.start(when, offset, duration)\<close> raises \<open>RangeError\<close> for a negative
  argument.
\<close>

definition startSource :: "real \<Rightarrow> real \<Rightarrow> real \<Rightarrow> error + real \<times> real \<times> real" where
  "startSource startWhen offset duration =
     (if startWhen < 0 \<or> offset < 0 \<or> duration < 0 then Inl RangeError
      else Inr (startWhen, offset, duration))"

text \<open>
  The output duration as \<open>processAudioRegion\<close> computes it, in double arithmetic, and
  the number it hands to the constructor as the context's length. The length is
  truncated to an integer, which is where the rounding of the doubles shows.
\<close>

definition outputDuration64 :: "(real \<Rightarrow> real \<Rightarrow> real) \<Rightarrow> EditorState \<Rightarrow> real" where
  "outputDuration64 Math_pow st =
     (let duration = binary64 (region_end st - region_start st);
          detuneFactor = Math_pow 2 (binary64 (pitch st / 12));
          effectiveRate = binary64 (speed st * detuneFactor)
      in binary64 (duration / effectiveRate))"

definition contextLength :: "(real \<Rightarrow> real \<Rightarrow> real) \<Rightarrow> EditorState \<Rightarrow> real" where
  "contextLength Math_pow st =
     binary64 (outputDuration64 Math_pow st * real (sampleRate (audioBuffer st)))"

text \<open>
  The timeline on which the gain is scheduled is kept in exact arithmetic: nothing on it
  is truncated, and rounding moves its points by less than one part in \<open>2^47\<close>.
\<close>

definition outputDuration :: "EditorState \<Rightarrow> real" where
  "outputDuration st =
     (let duration = region_end st - region_start st;
          detuneFactor = 2 powr (pitch st / 12);
          effectiveRate = speed st * detuneFactor
      in duration / effectiveRate)"

definition gainAutomation :: "EditorState \<Rightarrow> error + AutomationEvent list" where
  "gainAutomation st =
     (let fadeVolume = volume st
      in
      and_then (setValueAtTime 0 0 []) (\<lambda>gain.
      and_then
        (if fadeInDuration st > 0
         then (let safeFadeIn = min (fadeInDuration st) (outputDuration st / 2)
               in linearRampToValueAtTime fadeVolume safeFadeIn gain)
         else setValueAtTime fadeVolume 0 gain) (\<lambda>gain.
      if fadeOutDuration st > 0
      then (let safeFadeOut = min (fadeOutDuration st) (outputDuration st / 2);
                fadeOutStart = outputDuration st - safeFadeOut
            in and_then (setValueAtTime fadeVolume fadeOutStart gain) (\<lambda>gain.
               linearRampToValueAtTime 0 (outputDuration st) gain))
      else Inr gain)))"

text \<open>
  \<open>processAudioRegion\<close> up to the call of \<open>startRendering\<close>, in the order of the
  source: the test of the duration (\<open>Inr None\<close> is the \<open>null\<close> returned for an empty
  region), the context, the source node and its \<open>start\<close>, the gain schedule.
\<close>

definition configureRendering ::
  "(real \<Rightarrow> real \<Rightarrow> real) \<Rightarrow> EditorState \<Rightarrow> error + OfflineCtx option" where
  "configureRendering Math_pow st =
     (let duration = binary64 (region_end st - region_start st)
      in
      if duration \<le> 0 then Inr None
      else
        and_then (newOfflineAudioContext (numberOfChannels (audioBuffer st))
                    (contextLength Math_pow st)
                    (sampleRate (audioBuffer st))) (\<lambda>(channels, len, rate).
        and_then (startSource 0 (region_start st) duration) (\<lambda>(startWhen, offset, dur).
        and_then (gainAutomation st) (\<lambda>gain.
        Inr (Some \<lparr>ctx_numberOfChannels = channels, ctx_length = len, ctx_sampleRate = rate,
                   source_buffer = audioBuffer st,
                   source_playbackRate = speed st,
                   source_detune = pitch st * 100,
                   source_when = startWhen,
                   source_offset = offset,
                   source_duration = dur,
                   gain_events = gain\<rparr>)))))"

text \<open>
  \<open>startRendering\<close> is the platform's: it returns a buffer with the context's channel
  count, length and sample rate (\<open>renders\<close>). The samples it computes are left open.
\<close>

definition renders :: "OfflineCtx \<Rightarrow> AudioBuffer \<Rightarrow> bool" where
  "renders ctx buffer \<longleftrightarrow>
     numberOfChannels buffer = ctx_numberOfChannels ctx \<and>
     frames buffer = ctx_length ctx \<and>
     sampleRate buffer = ctx_sampleRate ctx \<and>
     list_all (\<lambda>c. length c = ctx_length ctx) (channelData buffer)"

definition processAudioRegion ::
  "(real \<Rightarrow> real \<Rightarrow> real) \<Rightarrow> (OfflineCtx \<Rightarrow> AudioBuffer) \<Rightarrow> EditorState \<Rightarrow>
     error + AudioBuffer option" where
  "processAudioRegion Math_pow startRendering st =
     and_then (configureRendering Math_pow st) (\<lambda>ctx. Inr (map_option startRendering ctx))"

section \<open>components/WaveformEditor.tsx: preview playhead and download\<close>

text \<open>
  One call of \<open>tick\<close>: it either returns without doing anything, or moves the
  playhead to a waveform time and requests the next animation frame.
\<close>

datatype TickResult = Stopped | Playhead real

definition tick :: "bool \<Rightarrow> real \<Rightarrow> real \<Rightarrow> real \<Rightarrow> real \<Rightarrow> real \<Rightarrow> TickResult" where
  "tick previewContext currentTime startTime duration start regionDuration =
     (if \<not> previewContext then Stopped
      else
        (let elapsed = currentTime - startTime
         in if elapsed > duration then Stopped
            else (let progress = elapsed / duration;
                      currentWaveformTime = start + progress * regionDuration
                  in Playhead currentWaveformTime)))"

text \<open>\<open>AudioBuffer.duration\<close>: the length in frames over the sample rate.\<close>

definition bufferDuration :: "AudioBuffer \<Rightarrow> real" where
  "bufferDuration buffer = real (frames buffer) / real (sampleRate buffer)"

text \<open>
  The \<open>tick\<close> closure that \<open>handlePreviewEffect\<close> creates for a processed buffer,
  as a function of the time elapsed on the preview context's clock.
\<close>

definition previewTick :: "AudioBuffer \<Rightarrow> EditorState \<Rightarrow> real \<Rightarrow> real \<Rightarrow> TickResult" where
  "previewTick processedBuffer st startTime elapsed =
     tick True (startTime + elapsed) startTime (bufferDuration processedBuffer)
       (region_start st) (region_end st - region_start st)"

text \<open>
  \<open>handleDownload\<close>: the encoders it calls, in order, and how it ends: by the early
  \<open>return\<close>, by handing a blob and a file name to the browser, or in the \<open>catch\<close>
  branch (an alert, no download).
\<close>

datatype EncoderCall = CallAudioBufferToWav | CallAudioBufferToMp3

datatype DownloadOutcome = Returned | Downloaded Blob string | ExportFailed error

definition handleDownload ::
  "'st Lamejs option \<Rightarrow> (real \<Rightarrow> real \<Rightarrow> real) \<Rightarrow> (OfflineCtx \<Rightarrow> AudioBuffer) \<Rightarrow>
     EditorState \<Rightarrow> EncoderCall list \<times> DownloadOutcome" where
  "handleDownload lamejs Math_pow startRendering st =
     (case processAudioRegion Math_pow startRendering st of
        Inl e \<Rightarrow> ([], ExportFailed e)
      | Inr None \<Rightarrow> ([], Returned)
      | Inr (Some processedBuffer) \<Rightarrow>
          (if exportFormat st = Wav
           then ([CallAudioBufferToWav],
                 case audioBufferToWav processedBuffer False of
                   Inl e \<Rightarrow> ExportFailed e
                 | Inr blob \<Rightarrow> Downloaded blob (fileName st @ ''.wav''))
           else ([CallAudioBufferToMp3],
                 case audioBufferToMp3 lamejs processedBuffer of
                   Inl e \<Rightarrow> ExportFailed e
                 | Inr blob \<Rightarrow> Downloaded blob (fileName st @ ''.mp3''))))"

section \<open>What the specification says, as definitions\<close>

text \<open>
  The definitions of this section follow the words of the specification, not the code;
  the theorems below compare the code with them.
\<close>

text \<open>
  PCM16 quantization: the sample clamped to \<open>[-1, 1]\<close>, times 32768 if the sample is
  negative and times 32767 otherwise, truncated to an integer.
\<close>

definition pcm16_spec :: "real \<Rightarrow> int" where
  "pcm16_spec x =
     (let c = max (- 1) (min 1 x) in trunc (if x < 0 then c * 32768 else c * 32767))"

text \<open>MP3 conversion: the sample clamped to \<open>[-1, 1]\<close>, times 32767.5, truncated.\<close>

definition mp3Int16_spec :: "real \<Rightarrow> int" where
  "mp3Int16_spec x = trunc (max (- 1) (min 1 x) * (65535 / 2))"

text \<open>
  The canonical 44-byte header: RIFF size \<open>36 + dataSize\<close>, byte rate
  \<open>sampleRate * blockAlign\<close>, block align \<open>channels * bytesPerSample\<close>, every
  multi-byte field little-endian.
\<close>

definition riffHeader :: "nat \<Rightarrow> nat \<Rightarrow> nat \<Rightarrow> nat \<Rightarrow> nat \<Rightarrow> octet list" where
  "riffHeader dataSize format rate numChannels bitDepth =
     (let bytesPerSample = bitDepth div 8;
          blockAlign = numChannels * bytesPerSample;
          byteRate = rate * blockAlign
      in ascii ''RIFF'' @ le32 (36 + dataSize) @ ascii ''WAVE'' @
         ascii ''fmt '' @ le32 16 @ le16 format @ le16 numChannels @ le32 rate @
         le32 byteRate @ le16 blockAlign @ le16 bitDepth @
         ascii ''data'' @ le32 dataSize)"

text \<open>Frame-by-frame interleaving: channel 0, channel 1, channel 0, channel 1, \<dots>\<close>

definition frameInterleaved :: "jsnum list \<Rightarrow> jsnum list \<Rightarrow> jsnum list" where
  "frameInterleaved inputL inputR = concat (map (\<lambda>(l, r). [l, r]) (zip inputL inputR))"

text \<open>
  The number of samples per channel the specification expects, before rounding:
  \<open>(region.end - region.start) / (speed * 2^(pitch/12)) * sampleRate\<close>.
\<close>

definition expectedSamples :: "EditorState \<Rightarrow> real" where
  "expectedSamples st =
     (region_end st - region_start st) / (speed st * 2 powr (pitch st / 12))
       * real (sampleRate (audioBuffer st))"


section \<open>Auxiliary definitions\<close>

text \<open>
  The octets of a sample sequence as the two write loops produce them: two per sample
  as PCM16, four per sample as Float32.
\<close>

definition pcm16Bytes :: "jsnum list \<Rightarrow> octet list" where
  "pcm16Bytes samples = concat (map (\<lambda>x. int16_le (ToInt16 (pcm16 x))) samples)"

definition float32Bytes :: "jsnum list \<Rightarrow> octet list" where
  "float32Bytes samples = concat (map float32_le samples)"

definition wavData :: "bool \<Rightarrow> jsnum list \<Rightarrow> octet list" where
  "wavData float32 samples = (if float32 then float32Bytes samples else pcm16Bytes samples)"

text \<open>A view with the octets \<open>bs\<close> written at \<open>off\<close>.\<close>

definition patch :: "octet list \<Rightarrow> nat \<Rightarrow> octet list \<Rightarrow> octet list" where
  "patch view off bs = take off view @ bs @ drop (off + length bs) view"

text \<open>
  Two small encoder libraries on which the adapter can be run. In both the encoder's
  state is the channel count, \<open>encodeBuffer\<close> emits the low octet of every sample it
  is given, left channel first, and \<open>flush\<close> emits the channel count. The first never
  raises an error; the second raises a \<open>TypeError\<close> when an encoder of more than one
  channel is given no right channel.
\<close>

definition echoLame :: "nat Lamejs" where
  "echoLame =
     \<lparr>Mp3Encoder = (\<lambda>channels rate kbps. Inr channels),
      encodeBuffer = (\<lambda>enc left right.
         Inr (map of_int left @ (case right of None \<Rightarrow> [] | Some r \<Rightarrow> map of_int r), enc)),
      flush = (\<lambda>enc. Inr [of_nat enc])\<rparr>"

definition strictLame :: "nat Lamejs" where
  "strictLame =
     \<lparr>Mp3Encoder = (\<lambda>channels rate kbps. Inr channels),
      encodeBuffer = (\<lambda>enc left right.
         if 1 < enc \<and> right = None then Inl TypeError
         else Inr (map of_int left @ (case right of None \<Rightarrow> [] | Some r \<Rightarrow> map of_int r),
                   enc)),
      flush = (\<lambda>enc. Inr [of_nat enc])\<rparr>"

text \<open>One second of mono silence at 44100 Hz.\<close>

definition monoSilence :: AudioBuffer where
  "monoSilence = \<lparr>sampleRate = 44100, frames = 44100, channelData = [replicate 44100 (Num 0)]\<rparr>"

text \<open>The first 44 octets of an encoder's result.\<close>

definition wavHeaderOf :: "error + Blob \<Rightarrow> error + octet list" where
  "wavHeaderOf r = (case r of Inl e \<Rightarrow> Inl e | Inr blob \<Rightarrow> Inr (take 44 (blob_parts blob)))"

text \<open>Two small buffers: a stereo one and one of three channels.\<close>

definition stereoPair :: AudioBuffer where
  "stereoPair = \<lparr>sampleRate = 8000, frames = 2,
                  channelData = [[Num 1, Num 0], [Num (- 1), Num 0]]\<rparr>"

definition threeChannels :: AudioBuffer where
  "threeChannels = \<lparr>sampleRate = 8000, frames = 1,
                     channelData = [[Num 1], [Num (- 1)], [Num 0]]\<rparr>"

text \<open>
  The editor's state for a buffer and a region with the component's initial settings:
  volume, fades and speed 1, pitch 0, WAV export.
\<close>

definition initialState :: "AudioBuffer \<Rightarrow> real \<Rightarrow> real \<Rightarrow> EditorState" where
  "initialState buffer start stop =
     \<lparr>audioBuffer = buffer, region_start = start, region_end = stop,
      speed = 1, pitch = 0, volume = 1, fadeInDuration = 1, fadeOutDuration = 1,
      exportFormat = Wav, fileName = ''ringtone''\<rparr>"

text \<open>A renderer that satisfies \<open>renders\<close> and computes silence.\<close>

definition silentRendering :: "OfflineCtx \<Rightarrow> AudioBuffer" where
  "silentRendering ctx =
     \<lparr>sampleRate = ctx_sampleRate ctx, frames = ctx_length ctx,
      channelData = replicate (ctx_numberOfChannels ctx) (replicate (ctx_length ctx) (Num 0))\<rparr>"

text \<open>A \<open>Math.pow\<close> that returns the exact power rounded to the nearest double.\<close>

definition roundedPow :: "real \<Rightarrow> real \<Rightarrow> real" where
  "roundedPow b e = binary64 (b powr e)"

text \<open>Mono silence of a whole number of seconds at 44100 Hz.\<close>

definition silentSeconds :: "nat \<Rightarrow> AudioBuffer" where
  "silentSeconds k =
     \<lparr>sampleRate = 44100, frames = 44100 * k, channelData = [replicate (44100 * k) (Num 0)]\<rparr>"

text \<open>Ten seconds of mono silence at 44100 Hz.\<close>

definition tenSeconds :: AudioBuffer where
  "tenSeconds = \<lparr>sampleRate = 44100, frames = 441000, channelData = [replicate 441000 (Num 0)]\<rparr>"

section \<open>Lemmas on the JavaScript conversions\<close>

lemma ToInt16_range: "- 32768 \<le> ToInt16 v \<and> ToInt16 v \<le> 32767"
proof (cases v)
  case (Num r)
  have "0 \<le> trunc r mod 65536" "trunc r mod 65536 < 65536" by simp_all
  then show ?thesis using Num by (auto simp add: ToInt16_def Let_def)
next
  case NaN
  then show ?thesis by (simp add: ToInt16_def)
qed

lemma ToInt16_small:
  assumes "- 32768 \<le> trunc r" "trunc r \<le> 32767"
  shows "ToInt16 (Num r) = trunc r"
proof (cases "0 \<le> trunc r")
  case True
  then have "trunc r mod 65536 = trunc r" using assms by simp
  then show ?thesis using assms by (simp add: ToInt16_def Let_def)
next
  case False
  then have "(trunc r + 65536) mod 65536 = trunc r + 65536" using assms
    by (intro mod_pos_pos_trivial) simp_all
  then have "trunc r mod 65536 = trunc r + 65536" by simp
  then show ?thesis using assms False by (simp add: ToInt16_def Let_def)
qed

lemma trunc_mono: "a \<le> b \<Longrightarrow> trunc a \<le> trunc b"
  unfolding trunc_def
  by (smt (verit) ceiling_mono floor_mono floor_le_ceiling ceiling_le_zero zero_le_floor of_int_0)

lemma trunc_of_int [simp]: "trunc (of_int k) = k"
  by (simp add: trunc_def)

lemma pcm16_Num:
  "pcm16 (Num x) =
     Num (if max (- 1) (min 1 x) < 0 then max (- 1) (min 1 x) * 32768
          else max (- 1) (min 1 x) * 32767)"
  by (simp add: pcm16_def Let_def max_def min_def)

lemma pcm16_value_bounds:
  fixes x :: real
  defines "s \<equiv> max (- 1) (min 1 x)"
  shows "- 32768 \<le> trunc (if s < 0 then s * 32768 else s * 32767)"
    and "trunc (if s < 0 then s * 32768 else s * 32767) \<le> 32767"
proof -
  have s: "- 1 \<le> s" "s \<le> 1" by (simp_all add: s_def)
  have "of_int (- 32768) \<le> (if s < 0 then s * 32768 else s * 32767)" using s by auto
  from trunc_mono [OF this] show "- 32768 \<le> trunc (if s < 0 then s * 32768 else s * 32767)"
    by (simp only: trunc_of_int)
  have "(if s < 0 then s * 32768 else s * 32767) \<le> of_int 32767" using s by auto
  from trunc_mono [OF this] show "trunc (if s < 0 then s * 32768 else s * 32767) \<le> 32767"
    by (simp only: trunc_of_int)
qed

lemma ToInt16_pcm16: "ToInt16 (pcm16 (Num x)) = pcm16_spec x"
proof -
  have eq: "(max (- 1) (min 1 x) < 0) = (x < 0)" by auto
  show ?thesis
    unfolding pcm16_Num pcm16_spec_def Let_def
    using pcm16_value_bounds [of x] ToInt16_small eq by simp
qed

lemma and_then_Inr [simp]: "and_then (Inr x) f = f x"
  by (simp add: and_then_def)

lemma and_then_Inl [simp]: "and_then (Inl e) f = Inl e"
  by (simp add: and_then_def)

lemma setBytes_Inr:
  "byteOffset + length bs \<le> length view \<Longrightarrow>
   setBytes view byteOffset bs = Inr (take byteOffset view @ bs @ drop (byteOffset + length bs) view)"
  by (simp add: setBytes_def)

lemma length_patched:
  "off + length bs \<le> length view \<Longrightarrow>
   length (take off view @ bs @ drop (off + length bs) view) = length view"
  by simp

lemma take_patched:
  "off + length bs \<le> length view \<Longrightarrow>
   take (off + length bs) (take off view @ bs @ drop (off + length bs) view) = take off view @ bs"
  by (simp add: min_absorb2)

lemma drop_patched:
  "off + length bs \<le> k \<Longrightarrow> off + length bs \<le> length view \<Longrightarrow>
   drop k (take off view @ bs @ drop (off + length bs) view) = drop k view"
  by (simp add: min_absorb2)

lemma length_int16_le [simp]: "length (int16_le k) = 2"
  by (simp add: int16_le_def)

lemma length_float32_le [simp]: "length (float32_le x) = 4"
  by (simp add: float32_le_def)

lemma floatTo16BitPCM_writes:
  "offset + 2 * length xs \<le> length view \<Longrightarrow>
   floatTo16BitPCM view offset xs =
     Inr (take offset view @ concat (map (\<lambda>x. int16_le (ToInt16 (pcm16 x))) xs)
          @ drop (offset + 2 * length xs) view)"
proof (induction xs arbitrary: view offset)
  case Nil
  then show ?case by simp
next
  case (Cons x xs)
  let ?b = "int16_le (ToInt16 (pcm16 x))"
  let ?out = "take offset view @ ?b @ drop (offset + length ?b) view"
  have fit: "offset + length ?b \<le> length view" using Cons.prems by simp
  have len: "length ?out = length view" using fit by (rule length_patched)
  have step: "setInt16 view offset (pcm16 x) = Inr ?out"
    unfolding setInt16_def using fit by (rule setBytes_Inr)
  have tk: "take (offset + 2) ?out = take offset view @ ?b"
    using take_patched [OF fit] by simp
  have dr: "drop (offset + 2 + 2 * length xs) ?out = drop (offset + 2 + 2 * length xs) view"
    using fit Cons.prems by (intro drop_patched) simp_all
  have "floatTo16BitPCM ?out (offset + 2) xs =
      Inr (take (offset + 2) ?out @ concat (map (\<lambda>x. int16_le (ToInt16 (pcm16 x))) xs)
           @ drop (offset + 2 + 2 * length xs) ?out)"
    using Cons.prems len by (intro Cons.IH) simp
  then show ?case
    by (simp only: floatTo16BitPCM.simps step and_then_Inr tk dr) (simp add: add.assoc)
qed

lemma writeFloat32_writes:
  "offset + 4 * length xs \<le> length view \<Longrightarrow>
   writeFloat32 view offset xs =
     Inr (take offset view @ concat (map float32_le xs)
          @ drop (offset + 4 * length xs) view)"
proof (induction xs arbitrary: view offset)
  case Nil
  then show ?case by simp
next
  case (Cons x xs)
  let ?b = "float32_le x"
  let ?out = "take offset view @ ?b @ drop (offset + length ?b) view"
  have fit: "offset + length ?b \<le> length view" using Cons.prems by simp
  have len: "length ?out = length view" using fit by (rule length_patched)
  have step: "setFloat32 view offset x = Inr ?out"
    unfolding setFloat32_def using fit by (rule setBytes_Inr)
  have tk: "take (offset + 4) ?out = take offset view @ ?b"
    using take_patched [OF fit] by simp
  have dr: "drop (offset + 4 + 4 * length xs) ?out = drop (offset + 4 + 4 * length xs) view"
    using fit Cons.prems by (intro drop_patched) simp_all
  have "writeFloat32 ?out (offset + 4) xs =
      Inr (take (offset + 4) ?out @ concat (map float32_le xs)
           @ drop (offset + 4 + 4 * length xs) ?out)"
    using Cons.prems len by (intro Cons.IH) simp
  then show ?case
    by (simp only: writeFloat32.simps step and_then_Inr tk dr) (simp add: add.assoc)
qed

lemma writeString_writes:
  "offset + length s \<le> length view \<Longrightarrow>
   writeString view offset s =
     Inr (take offset view @ ascii s @ drop (offset + length s) view)"
proof (induction s arbitrary: view offset)
  case Nil
  then show ?case by (simp add: ascii_def)
next
  case (Cons c cs)
  let ?b = "[Byte (of_nat (of_char c))]"
  let ?out = "take offset view @ ?b @ drop (offset + length ?b) view"
  have fit: "offset + length ?b \<le> length view" using Cons.prems by simp
  have len: "length ?out = length view" using fit by (rule length_patched)
  have step: "setUint8 view offset (of_char c) = Inr ?out"
    unfolding setUint8_def using fit by (rule setBytes_Inr)
  have tk: "take (offset + 1) ?out = take offset view @ ?b"
    using take_patched [OF fit] by simp
  have dr: "drop (offset + 1 + length cs) ?out = drop (offset + 1 + length cs) view"
    using fit Cons.prems by (intro drop_patched) simp_all
  have "writeString ?out (offset + 1) cs =
      Inr (take (offset + 1) ?out @ ascii cs @ drop (offset + 1 + length cs) ?out)"
    using Cons.prems len by (intro Cons.IH) simp
  then show ?case
    by (simp only: writeString.simps step and_then_Inr tk dr) (simp add: ascii_def add.assoc)
qed

lemma length_patch:
  "off + length bs \<le> length view \<Longrightarrow> length (patch view off bs) = length view"
  by (simp add: patch_def)

lemma length_ascii: "length (ascii s) = length s"
  by (simp add: ascii_def)

lemma length_le32: "length (le32 n) = 4"
  by (simp add: le32_def)

lemma length_le16: "length (le16 n) = 2"
  by (simp add: le16_def)

lemma setBytes_prefix:
  "byteOffset + length bs \<le> length hdr \<Longrightarrow>
   setBytes (hdr @ rest) byteOffset bs = Inr (patch hdr byteOffset bs @ rest)"
  by (simp add: setBytes_def patch_def)

lemma writeString_prefix:
  "offset + length s \<le> length hdr \<Longrightarrow>
   writeString (hdr @ rest) offset s = Inr (patch hdr offset (ascii s) @ rest)"
  using writeString_writes [of offset s "hdr @ rest"] by (simp add: patch_def length_ascii)

lemma replicate_44:
  "replicate 44 x =
     [x, x, x, x, x, x, x, x, x, x, x, x, x, x, x, x, x, x, x, x, x, x,
      x, x, x, x, x, x, x, x, x, x, x, x, x, x, x, x, x, x, x, x, x, x]"
  by (simp add: numeral_eq_Suc)

lemma header_patches:
  "patch (patch (patch (patch (patch (patch (patch (patch (patch (patch (patch (patch (patch
     (replicate 44 (Byte 0)) 0 (ascii ''RIFF'')) 4 (le32 (36 + dataSize))) 8 (ascii ''WAVE''))
     12 (ascii ''fmt '')) 16 (le32 16)) 20 (le16 format)) 22 (le16 numChannels)) 24 (le32 rate))
     28 (le32 (rate * (numChannels * (bitDepth div 8))))) 32 (le16 (numChannels * (bitDepth div 8))))
     34 (le16 bitDepth)) 36 (ascii ''data'')) 40 (le32 dataSize)
   = riffHeader dataSize format rate numChannels bitDepth"
  by (simp add: patch_def replicate_44 ascii_def le32_def le16_def riffHeader_def Let_def)

lemma encodeWAV_header_written:
  "and_then (writeString (replicate 44 (Byte 0) @ rest) 0 ''RIFF'') (\<lambda>view.
   and_then (setUint32 view 4 (36 + dataSize)) (\<lambda>view.
   and_then (writeString view 8 ''WAVE'') (\<lambda>view.
   and_then (writeString view 12 ''fmt '') (\<lambda>view.
   and_then (setUint32 view 16 16) (\<lambda>view.
   and_then (setUint16 view 20 format) (\<lambda>view.
   and_then (setUint16 view 22 numChannels) (\<lambda>view.
   and_then (setUint32 view 24 rate) (\<lambda>view.
   and_then (setUint32 view 28 (rate * (numChannels * (bitDepth div 8)))) (\<lambda>view.
   and_then (setUint16 view 32 (numChannels * (bitDepth div 8))) (\<lambda>view.
   and_then (setUint16 view 34 bitDepth) (\<lambda>view.
   and_then (writeString view 36 ''data'') (\<lambda>view.
   and_then (setUint32 view 40 dataSize) k))))))))))))
   = k (riffHeader dataSize format rate numChannels bitDepth @ rest)"
  unfolding header_patches [symmetric] setUint32_def setUint16_def
  by (simp add: writeString_prefix setBytes_prefix length_patch length_ascii length_le32
      length_le16 del: writeString.simps)

lemma length_riffHeader: "length (riffHeader d f r c b) = 44"
  by (simp add: riffHeader_def Let_def ascii_def le32_def le16_def)

lemma length_pcm16Bytes: "length (pcm16Bytes xs) = 2 * length xs"
  by (induction xs) (simp_all add: pcm16Bytes_def)

lemma length_float32Bytes: "length (float32Bytes xs) = 4 * length xs"
  by (induction xs) (simp_all add: float32Bytes_def)

lemma encodeWAV_pcm16:
  "encodeWAV samples 1 rate numChannels 16 =
     Inr \<lparr>blob_parts = riffHeader (length samples * 2) 1 rate numChannels 16 @ pcm16Bytes samples,
          blob_type = ''audio/wav''\<rparr>"
proof -
  let ?H = "riffHeader (length samples * 2) 1 rate numChannels 16"
  let ?R = "replicate (length samples * 2) (Byte 0)"
  have data: "floatTo16BitPCM (?H @ ?R) 44 samples = Inr (?H @ pcm16Bytes samples)"
    using floatTo16BitPCM_writes [of 44 samples "?H @ ?R"]
    by (simp add: length_riffHeader pcm16Bytes_def)
  have "encodeWAV samples 1 rate numChannels 16 =
      and_then (floatTo16BitPCM (?H @ ?R) 44 samples)
        (\<lambda>view. Inr \<lparr>blob_parts = view, blob_type = ''audio/wav''\<rparr>)"
    unfolding encodeWAV_def Let_def replicate_add
    using encodeWAV_header_written [of ?R "length samples * 2" 1 numChannels rate 16]
    by simp
  then show ?thesis by (simp only: data and_then_Inr)
qed

lemma encodeWAV_float32:
  "encodeWAV samples 3 rate numChannels 32 =
     Inr \<lparr>blob_parts = riffHeader (length samples * 4) 3 rate numChannels 32 @ float32Bytes samples,
          blob_type = ''audio/wav''\<rparr>"
proof -
  let ?H = "riffHeader (length samples * 4) 3 rate numChannels 32"
  let ?R = "replicate (length samples * 4) (Byte 0)"
  have data: "writeFloat32 (?H @ ?R) 44 samples = Inr (?H @ float32Bytes samples)"
    using writeFloat32_writes [of 44 samples "?H @ ?R"]
    by (simp add: length_riffHeader float32Bytes_def)
  have "encodeWAV samples 3 rate numChannels 32 =
      and_then (writeFloat32 (?H @ ?R) 44 samples)
        (\<lambda>view. Inr \<lparr>blob_parts = view, blob_type = ''audio/wav''\<rparr>)"
    unfolding encodeWAV_def Let_def replicate_add
    using encodeWAV_header_written [of ?R "length samples * 4" 3 numChannels rate 32]
    by simp
  then show ?thesis by (simp only: data and_then_Inr)
qed

lemma length_store [simp]: "length (store xs i v) = length xs"
  by (simp add: store_def)

lemma interleave_loop_frames:
  "length inputL = n \<Longrightarrow> length inputR = n \<Longrightarrow> length result = 2 * n \<Longrightarrow> k \<le> n \<Longrightarrow>
   interleave_loop inputL inputR (2 * n) (2 * k) k result =
     take (2 * k) result @ frameInterleaved (drop k inputL) (drop k inputR)"
proof (induction "n - k" arbitrary: k result)
  case 0
  then have "k = n" by simp
  then show ?case using 0 by (simp add: frameInterleaved_def)
next
  case (Suc m)
  then have kn: "k < n" by simp
  let ?r = "store (store result (2 * k) (elem inputL k)) (2 * k + 1) (elem inputR k)"
  have r: "?r = result[2 * k := inputL ! k, 2 * k + 1 := inputR ! k]"
    using Suc.prems kn by (simp add: store_def elem_def)
  have len: "length ?r = 2 * n" using Suc.prems by simp
  have tk: "take (2 * Suc k) ?r = take (2 * k) result @ [inputL ! k, inputR ! k]"
    using Suc.prems kn unfolding r
    by (simp add: take_Suc_conv_app_nth)
  have fr: "frameInterleaved (drop k inputL) (drop k inputR) =
      [inputL ! k, inputR ! k] @ frameInterleaved (drop (Suc k) inputL) (drop (Suc k) inputR)"
    using Suc.prems kn
    by (simp add: frameInterleaved_def Cons_nth_drop_Suc [symmetric])
  have "interleave_loop inputL inputR (2 * n) (2 * Suc k) (Suc k) ?r =
      take (2 * Suc k) ?r @ frameInterleaved (drop (Suc k) inputL) (drop (Suc k) inputR)"
    using Suc.hyps Suc.prems kn len by (intro Suc.hyps(1)) simp_all
  moreover have "interleave_loop inputL inputR (2 * n) (2 * k) k result =
      interleave_loop inputL inputR (2 * n) (2 * Suc k) (Suc k) ?r"
    using kn by (subst interleave_loop.simps) simp
  ultimately show ?case by (simp only: tk fr) simp
qed

lemma interleave_frames:
  assumes "length inputL = length inputR"
  shows "interleave inputL inputR = frameInterleaved inputL inputR"
proof -
  let ?n = "length inputL"
  have len: "length inputL + length inputR = 2 * ?n" using assms by simp
  have "interleave_loop inputL inputR (2 * ?n) (2 * 0) 0 (replicate (2 * ?n) (Num 0)) =
      take (2 * 0) (replicate (2 * ?n) (Num 0)) @ frameInterleaved (drop 0 inputL) (drop 0 inputR)"
    using assms by (intro interleave_loop_frames) simp_all
  then show ?thesis
    unfolding interleave_def Let_def len by simp
qed

lemma mp3Sample_Num: "mp3Sample (Num x) = Num (max (- 1) (min 1 x) * (65535 / 2))"
  by (simp add: mp3Sample_def)

lemma mp3_value_bounds:
  fixes x :: real
  shows "- 32767 \<le> trunc (max (- 1) (min 1 x) * (65535 / 2))"
    and "trunc (max (- 1) (min 1 x) * (65535 / 2)) \<le> 32767"
proof -
  let ?s = "max (- 1) (min 1 x)"
  have s: "- 1 \<le> ?s" "?s \<le> 1" by simp_all
  have lo: "- (65535 / 2) \<le> ?s * (65535 / 2)" using s(1) by simp
  have hi: "?s * (65535 / 2) \<le> 65535 / 2" using s(2) by simp
  have "trunc (- (65535 / 2)) \<le> trunc (?s * (65535 / 2))" using lo by (rule trunc_mono)
  moreover have "trunc (- (65535 / 2) :: real) = - 32767"
    by (simp add: trunc_def ceiling_eq_iff)
  ultimately show "- 32767 \<le> trunc (?s * (65535 / 2))" by simp
  have "trunc (?s * (65535 / 2)) \<le> trunc (65535 / 2)" using hi by (rule trunc_mono)
  moreover have "trunc (65535 / 2 :: real) = 32767"
    by (simp add: trunc_def floor_eq_iff)
  ultimately show "trunc (?s * (65535 / 2)) \<le> 32767" by simp
qed

lemma ToInt16_mp3Sample: "ToInt16 (mp3Sample (Num x)) = mp3Int16_spec x"
  unfolding mp3Sample_Num mp3Int16_spec_def
  using mp3_value_bounds [of x] by (intro ToInt16_small) simp_all

lemma convertLoop_fill:
  "i + length xs = length arr \<Longrightarrow>
   convertLoop arr i xs = take i arr @ map (\<lambda>x. ToInt16 (mp3Sample x)) xs"
proof (induction xs arbitrary: arr i)
  case Nil
  then show ?case by simp
next
  case (Cons x xs)
  let ?v = "ToInt16 (mp3Sample x)"
  have i: "i < length arr" using Cons.prems by simp
  have st: "store arr i ?v = arr[i := ?v]" using i by (simp add: store_def)
  have "convertLoop (arr[i := ?v]) (i + 1) xs =
      take (i + 1) (arr[i := ?v]) @ map (\<lambda>x. ToInt16 (mp3Sample x)) xs"
    using Cons.prems by (intro Cons.IH) simp
  moreover have "take (i + 1) (arr[i := ?v]) = take i arr @ [?v]"
    using i by (simp add: take_Suc_conv_app_nth)
  ultimately show ?case by (simp add: st)
qed

lemma convertLoop_map:
  "length data = n \<Longrightarrow>
   convertLoop (replicate n 0) 0 data = map (\<lambda>x. ToInt16 (mp3Sample x)) data"
  using convertLoop_fill [of 0 data "replicate n 0"] by simp

lemma concat_blocks:
  "concat ((if 0 < length a then [a] else []) @ (if 0 < length b then [b] else [])) = a @ b"
  by auto

lemma audioBufferToMp3_None: "audioBufferToMp3 None buffer = Inl (Error ''lamejs library not loaded'')"
  by (simp add: audioBufferToMp3_def)

lemma getChannelData_0: "channelData buffer \<noteq> [] \<Longrightarrow> getChannelData buffer 0 = Inr (channelData buffer ! 0)"
  by (simp add: getChannelData_def numberOfChannels_def)

lemma getChannelData_1:
  "numberOfChannels buffer = 2 \<Longrightarrow>
   getChannelData buffer (Suc 0) = Inr (channelData buffer ! Suc 0)"
  by (simp add: getChannelData_def)

lemma wf_buffer_length:
  "wf_buffer buffer \<Longrightarrow> i < numberOfChannels buffer \<Longrightarrow> length (channelData buffer ! i) = frames buffer"
  by (simp add: wf_buffer_def numberOfChannels_def list_all_length)

lemma audioBufferToMp3_Some:
  assumes wf: "wf_buffer buffer"
  shows "audioBufferToMp3 (Some lame) buffer =
     and_then (Mp3Encoder lame (numberOfChannels buffer) (sampleRate buffer) 192) (\<lambda>mp3encoder.
     and_then (encodeBuffer lame mp3encoder
                 (map (\<lambda>x. ToInt16 (mp3Sample x)) (channelData buffer ! 0))
                 (if numberOfChannels buffer = 2
                  then Some (map (\<lambda>x. ToInt16 (mp3Sample x)) (channelData buffer ! 1))
                  else None)) (\<lambda>(sampleBlock, mp3encoder).
     and_then (flush lame mp3encoder) (\<lambda>endBlock.
     Inr \<lparr>blob_parts = map Byte (sampleBlock @ endBlock), blob_type = ''audio/mp3''\<rparr>)))"
proof -
  have ne: "channelData buffer \<noteq> []" using wf by (simp add: wf_buffer_def)
  then have pos: "0 < numberOfChannels buffer" by (simp add: numberOfChannels_def)
  have l0: "convertLoop (replicate (frames buffer) 0) 0 (channelData buffer ! 0) =
      map (\<lambda>x. ToInt16 (mp3Sample x)) (channelData buffer ! 0)"
    using wf_buffer_length [OF wf pos] by (rule convertLoop_map)
  show ?thesis
  proof (cases "numberOfChannels buffer = 2")
    case True
    have l1: "convertLoop (replicate (frames buffer) 0) 0 (channelData buffer ! Suc 0) =
        map (\<lambda>x. ToInt16 (mp3Sample x)) (channelData buffer ! Suc 0)"
      using wf_buffer_length [OF wf, of "Suc 0"] True by (intro convertLoop_map) simp
    show ?thesis
      using True
      by (simp add: audioBufferToMp3_def Let_def getChannelData_0 [OF ne] getChannelData_1 l0 l1
          and_then_def concat_blocks split: sum.splits prod.splits)
  next
    case False
    then show ?thesis
      by (simp add: audioBufferToMp3_def Let_def getChannelData_0 [OF ne] l0
          and_then_def concat_blocks split: sum.splits prod.splits)
  qed
qed

lemma audioBufferToWav_eq:
  assumes ne: "channelData buffer \<noteq> []"
  shows "audioBufferToWav buffer float32 =
     (let samples = (if numberOfChannels buffer = 2
                     then interleave (channelData buffer ! 0) (channelData buffer ! 1)
                     else channelData buffer ! 0);
          bitDepth = (if float32 then 32 else 16)
      in Inr \<lparr>blob_parts =
                riffHeader (length samples * (bitDepth div 8)) (if float32 then 3 else 1)
                  (sampleRate buffer) (numberOfChannels buffer) bitDepth
                @ wavData float32 samples,
              blob_type = ''audio/wav''\<rparr>)"
proof (cases float32)
  case True
  then show ?thesis
    by (cases "numberOfChannels buffer = 2")
      (simp_all add: audioBufferToWav_def Let_def getChannelData_0 [OF ne] getChannelData_1
        encodeWAV_float32 wavData_def)
next
  case False
  then show ?thesis
    by (cases "numberOfChannels buffer = 2")
      (simp_all add: audioBufferToWav_def Let_def getChannelData_0 [OF ne] getChannelData_1
        encodeWAV_pcm16 [simplified] wavData_def)
qed

section \<open>Lemmas on double rounding\<close>

lemma roundEven_close: "\<bar>of_int (roundEven x) - x\<bar> \<le> 1 / 2"
proof -
  have "of_int \<lfloor>x\<rfloor> \<le> x" "x < of_int \<lfloor>x\<rfloor> + 1" by linarith+
  then show ?thesis by (auto simp add: roundEven_def Let_def)
qed

lemma roundEven_of_int: "roundEven (of_int z) = z"
  by (simp add: roundEven_def)

lemma floor_log2:
  assumes "2 powr of_int e \<le> \<bar>r\<bar>" "\<bar>r\<bar> < 2 powr of_int (e + 1)"
  shows "\<lfloor>log 2 \<bar>r\<bar>\<rfloor> = e"
proof -
  have pos: "0 < \<bar>r\<bar>" using assms(1) powr_gt_zero [of 2 "of_int e"] by linarith
  have "of_int e \<le> log 2 \<bar>r\<bar>" using assms(1) pos by (simp add: le_log_iff)
  moreover have "log 2 \<bar>r\<bar> < of_int (e + 1)" using assms(2) pos by (simp add: log_less_iff)
  ultimately show ?thesis by (simp add: floor_eq_iff)
qed

lemma binary64_eval:
  assumes "2 powr of_int e \<le> \<bar>r\<bar>" "\<bar>r\<bar> < 2 powr of_int (e + 1)"
  shows "binary64 r = of_int (roundEven (r / 2 powr of_int (e - 52))) * 2 powr of_int (e - 52)"
proof -
  have "r \<noteq> 0" using assms(1) powr_gt_zero [of 2 "of_int e"] by auto
  then show ?thesis by (simp add: binary64_def Let_def floor_log2 [OF assms])
qed

lemma powr_floor_log2_le:
  assumes "r \<noteq> 0"
  shows "2 powr of_int \<lfloor>log 2 \<bar>r\<bar>\<rfloor> \<le> \<bar>r\<bar>"
proof -
  have pos: "0 < \<bar>r\<bar>" using assms by simp
  have "of_int \<lfloor>log 2 \<bar>r\<bar>\<rfloor> \<le> log 2 \<bar>r\<bar>" by simp
  then have "2 powr of_int \<lfloor>log 2 \<bar>r\<bar>\<rfloor> \<le> 2 powr log 2 \<bar>r\<bar>"
    by (simp only: powr_le_cancel_iff)
  then show ?thesis using pos by simp
qed

lemma binary64_error: "\<bar>binary64 r - r\<bar> \<le> \<bar>r\<bar> / 2 ^ 53"
proof (cases "r = 0")
  case True
  then show ?thesis by (simp add: binary64_def)
next
  case False
  define e where "e = \<lfloor>log 2 \<bar>r\<bar>\<rfloor>"
  define q :: real where "q = 2 powr of_int (e - 52)"
  have qpos: "0 < q" by (simp add: q_def)
  have fl: "binary64 r = of_int (roundEven (r / q)) * q"
    using False by (simp add: binary64_def Let_def q_def e_def)
  have "\<bar>of_int (roundEven (r / q)) - r / q\<bar> \<le> 1 / 2" by (rule roundEven_close)
  then have "\<bar>of_int (roundEven (r / q)) - r / q\<bar> * q \<le> 1 / 2 * q"
    using qpos by (intro mult_right_mono) simp_all
  moreover have "\<bar>of_int (roundEven (r / q)) - r / q\<bar> * q = \<bar>of_int (roundEven (r / q)) * q - r\<bar>"
  proof -
    have "\<bar>of_int (roundEven (r / q)) - r / q\<bar> * q = \<bar>(of_int (roundEven (r / q)) - r / q) * q\<bar>"
      using qpos by (simp add: abs_mult)
    also have "(of_int (roundEven (r / q)) - r / q) * q = of_int (roundEven (r / q)) * q - r"
      using qpos by (simp add: field_simps)
    finally show ?thesis .
  qed
  ultimately have err: "\<bar>binary64 r - r\<bar> \<le> q / 2" by (simp add: fl)
  have "q = 2 powr of_int e / 2 ^ 52"
    by (simp add: q_def powr_diff)
  moreover have "2 powr of_int e \<le> \<bar>r\<bar>" unfolding e_def using False by (rule powr_floor_log2_le)
  ultimately have "q / 2 \<le> \<bar>r\<bar> / 2 ^ 53" by simp
  with err show ?thesis by linarith
qed

lemma binary64_exact:
  assumes m: "\<bar>m\<bar> < 2 ^ 53"
  shows "binary64 (of_int m * 2 powr of_int n) = of_int m * 2 powr of_int n"
proof (cases "m = 0")
  case True
  then show ?thesis by (simp add: binary64_def)
next
  case False
  let ?r = "of_int m * 2 powr of_int n :: real"
  define e where "e = \<lfloor>log 2 \<bar>?r\<bar>\<rfloor>"
  have r0: "?r \<noteq> 0" using False by simp
  have "2 powr of_int e \<le> \<bar>?r\<bar>" unfolding e_def using r0 by (rule powr_floor_log2_le)
  also have "\<bar>?r\<bar> = \<bar>of_int m\<bar> * 2 powr of_int n" by (simp add: abs_mult)
  also have "\<dots> < 2 ^ 53 * 2 powr of_int n"
  proof -
    have "\<bar>of_int m :: real\<bar> < 2 ^ 53" using m by (metis of_int_abs of_int_less_numeral_power_cancel_iff)
    then show ?thesis by (intro mult_strict_right_mono) simp_all
  qed
  also have "\<dots> = 2 powr of_int (53 + n)"
    by (simp add: powr_add)
  finally have "of_int e < (of_int (53 + n) :: real)" by (simp only: powr_less_cancel_iff)
  then have en: "e - 52 \<le> n" by linarith
  define k where "k = nat (n - (e - 52))"
  have nk: "n = (e - 52) + int k" using en by (simp add: k_def)
  have split: "(2::real) powr of_int n = 2 powr of_int (e - 52) * 2 ^ k"
    by (subst nk) (simp add: powr_add powr_realpow del: of_int_diff)
  have quot: "?r / 2 powr of_int (e - 52) = of_int (m * 2 ^ k)"
    by (simp add: split)
  have "binary64 ?r = of_int (roundEven (?r / 2 powr of_int (e - 52))) * 2 powr of_int (e - 52)"
    using r0 by (simp add: binary64_def Let_def e_def del: of_int_diff)
  also have "\<dots> = of_int (m * 2 ^ k) * 2 powr of_int (e - 52)"
    by (simp only: quot roundEven_of_int)
  also have "\<dots> = ?r" by (simp add: split)
  finally show ?thesis .
qed

lemma binary64_int: "\<bar>m\<bar> < 2 ^ 53 \<Longrightarrow> binary64 (of_int m) = of_int m"
  using binary64_exact [of m 0] by simp

lemma binary64_dyadic: "\<bar>m\<bar> < 2 ^ 53 \<Longrightarrow> binary64 (of_int m / 2 ^ k) = of_int m / 2 ^ k"
  using binary64_exact [of m "- int k"] by (simp add: powr_minus powr_realpow divide_inverse)

lemma ln_close:
  fixes a b eps :: real
  assumes a: "0 < a" and close: "\<bar>b - a\<bar> \<le> eps * a" and eps: "eps \<le> 1 / 2"
  shows "0 < b \<and> \<bar>ln b - ln a\<bar> \<le> 2 * eps"
proof -
  define d where "d = (b - a) / a"
  have b: "b = a * (1 + d)" using a by (simp add: d_def field_simps)
  have "\<bar>d\<bar> = \<bar>b - a\<bar> / a" using a by (simp add: d_def)
  also have "\<dots> \<le> eps" using close a by (simp add: field_simps)
  finally have d: "\<bar>d\<bar> \<le> eps" .
  then have d2: "\<bar>d\<bar> \<le> 1 / 2" using eps by linarith
  have pos: "0 < 1 + d" using d2 by linarith
  have bpos: "0 < b" unfolding b using a pos by simp
  have ln: "ln b - ln a = ln (1 + d)" unfolding b using a pos by (simp add: ln_mult)
  have "\<bar>ln (1 + d)\<bar> \<le> 2 * \<bar>d\<bar>"
  proof (cases "0 \<le> d")
    case True
    then have "ln (1 + d) \<le> d" by (intro ln_add_one_self_le_self)
    moreover have "0 \<le> ln (1 + d)" using True by simp
    ultimately show ?thesis using True by simp
  next
    case False
    define t where "t = - d"
    have t: "0 \<le> t" "t \<le> 1 / 2" using False d2 by (simp_all add: t_def)
    have "- t - 2 * t\<^sup>2 \<le> ln (1 - t)" using t by (intro ln_one_minus_pos_lower_bound)
    moreover have "t\<^sup>2 \<le> t / 2"
    proof -
      have "t * t \<le> t * (1 / 2)" using t by (intro mult_left_mono) simp_all
      then show ?thesis by (simp add: power2_eq_square)
    qed
    moreover have "ln (1 - t) \<le> 0" using t by simp
    ultimately have "\<bar>ln (1 - t)\<bar> \<le> 2 * t" by linarith
    then show ?thesis using False by (simp add: t_def)
  qed
  then have "\<bar>ln b - ln a\<bar> \<le> 2 * eps" using d ln by linarith
  with bpos show ?thesis by simp
qed

lemma binary64_ln:
  assumes "0 < r"
  shows "0 < binary64 r \<and> \<bar>ln (binary64 r) - ln r\<bar> \<le> 2 / 2 ^ 53"
proof -
  have "\<bar>binary64 r - r\<bar> \<le> (1 / 2 ^ 53) * r"
    using binary64_error [of r] assms by simp
  from ln_close [OF assms this] show ?thesis by simp
qed

lemma exp_close:
  fixes t :: real
  assumes "\<bar>t\<bar> \<le> 1"
  shows "\<bar>exp t - 1\<bar> \<le> 2 * \<bar>t\<bar>"
proof (cases "0 \<le> t")
  case True
  then have "exp t \<le> 1 + t + t\<^sup>2" using assms by (intro exp_bound) simp_all
  moreover have "t\<^sup>2 \<le> t"
  proof -
    have "t * t \<le> t * 1" using True assms by (intro mult_left_mono) simp_all
    then show ?thesis by (simp add: power2_eq_square)
  qed
  moreover have "1 \<le> exp t" using True by simp
  ultimately show ?thesis using True by simp
next
  case False
  have "1 + t \<le> exp t" by (rule exp_ge_add_one_self)
  moreover have "exp t \<le> 1" using False by simp
  ultimately have "\<bar>exp t - 1\<bar> \<le> - t" by linarith
  then show ?thesis using False by linarith
qed

lemma from_ln_close:
  fixes x y k :: real
  assumes x: "0 < x" and y: "0 < y" and close: "\<bar>ln y - ln x\<bar> \<le> k" and k: "k \<le> 1"
  shows "\<bar>y - x\<bar> \<le> x * (2 * k)"
proof -
  have "y = x * exp (ln y - ln x)" using x y by (simp add: exp_diff)
  then have "y - x = x * (exp (ln y - ln x) - 1)" by (simp add: algebra_simps)
  then have "\<bar>y - x\<bar> = x * \<bar>exp (ln y - ln x) - 1\<bar>" using x by (simp add: abs_mult)
  also have "\<dots> \<le> x * (2 * \<bar>ln y - ln x\<bar>)"
    using x close k by (intro mult_left_mono exp_close) simp_all
  also have "\<dots> \<le> x * (2 * k)" using x close by (intro mult_left_mono) simp_all
  finally show ?thesis .
qed

lemma length_error:
  fixes s e sp pt :: real and sr :: nat and pow :: "real \<Rightarrow> real \<Rightarrow> real"
  assumes region: "s < e"
    and speed: "1 / 2 \<le> sp" "sp \<le> 2"
    and pitch: "- 12 \<le> pt" "pt \<le> 12"
    and pow: "\<forall>p. - 2 \<le> p \<and> p \<le> 2 \<longrightarrow> \<bar>pow 2 p - 2 powr p\<bar> \<le> 2 powr p / 2 ^ 50"
  shows "\<bar>binary64 (binary64 (binary64 (e - s) / binary64 (sp * pow 2 (binary64 (pt / 12)))) * real sr)
          - (e - s) / (sp * 2 powr (pt / 12)) * real sr\<bar>
         \<le> ((e - s) / (sp * 2 powr (pt / 12)) * real sr) / 2 ^ 47"
proof (cases "sr = 0")
  case True
  then show ?thesis by (simp add: binary64_def)
next
  case False
  then have sr: "0 < real sr" by simp
  define u :: real where "u = 1 / 2 ^ 53"
  define d where "d = e - s"
  define P where "P = pt / 12"
  define ph where "ph = binary64 P"
  define det where "det = pow 2 ph"
  define rate where "rate = binary64 (sp * det)"
  define od where "od = binary64 (binary64 d / rate)"
  define y where "y = binary64 (od * real sr)"
  define x where "x = d / (sp * 2 powr P) * real sr"
  have d: "0 < d" using region by (simp add: d_def)
  have sp: "0 < sp" using speed by linarith
  have P: "\<bar>P\<bar> \<le> 1" using pitch by (simp add: P_def)
  have D1: "0 < binary64 d" "\<bar>ln (binary64 d) - ln d\<bar> \<le> 2 * u"
    using binary64_ln [OF d] by (simp_all add: u_def)
  have "\<bar>ph - P\<bar> \<le> \<bar>P\<bar> / 2 ^ 53" unfolding ph_def by (rule binary64_error)
  also have "\<dots> \<le> u" using P by (simp add: u_def divide_right_mono)
  finally have php: "\<bar>ph - P\<bar> \<le> u" .
  have u_small: "u \<le> 1" by (simp add: u_def)
  have ph2: "- 2 \<le> ph \<and> ph \<le> 2" using php P u_small by linarith
  have ln2: "ln (2::real) \<le> 1" using ln_2_less_1 by simp
  have lnT: "ln (2 powr ph) - ln (2 powr P) = (ph - P) * ln 2"
    by (simp add: ln_powr algebra_simps)
  have "\<bar>(ph - P) * ln 2\<bar> = \<bar>ph - P\<bar> * ln 2" by (simp add: abs_mult)
  also have "\<dots> \<le> u * 1" using php ln2 by (intro mult_mono) simp_all
  finally have T: "\<bar>ln (2 powr ph) - ln (2 powr P)\<bar> \<le> u" using lnT by simp
  have "\<bar>det - 2 powr ph\<bar> \<le> (1 / 2 ^ 50) * 2 powr ph"
    using pow ph2 by (simp add: det_def)
  from ln_close [OF _ this]
  have det: "0 < det" "\<bar>ln det - ln (2 powr ph)\<bar> \<le> 2 * (1 / 2 ^ 50)" by simp_all
  have spdet: "0 < sp * det" using sp det(1) by simp
  have rate: "0 < rate" "\<bar>ln rate - ln (sp * det)\<bar> \<le> 2 * u"
    using binary64_ln [OF spdet] by (simp_all add: rate_def u_def)
  have q: "0 < binary64 d / rate" using D1(1) rate(1) by simp
  have od: "0 < od" "\<bar>ln od - ln (binary64 d / rate)\<bar> \<le> 2 * u"
    using binary64_ln [OF q] by (simp_all add: od_def u_def)
  have prod: "0 < od * real sr" using od(1) sr by simp
  have y: "0 < y" "\<bar>ln y - ln (od * real sr)\<bar> \<le> 2 * u"
    using binary64_ln [OF prod] by (simp_all add: y_def u_def)
  have x: "0 < x" using d sp sr by (simp add: x_def)
  have lnx: "ln x = ln d - (ln sp + ln (2 powr P)) + ln (real sr)"
    unfolding x_def using d sp sr by (simp add: ln_mult ln_div)
  have e1: "ln (od * real sr) = ln od + ln (real sr)" using od(1) sr by (simp add: ln_mult)
  have e2: "ln (binary64 d / rate) = ln (binary64 d) - ln rate"
    using D1(1) rate(1) by (simp add: ln_div)
  have e3: "ln (sp * det) = ln sp + ln det" using sp det(1) by (simp add: ln_mult)
  have "\<bar>ln y - ln x\<bar> \<le> 9 * u + 2 * (1 / 2 ^ 50)"
    using y(2) od(2) rate(2) det(2) T D1(2) unfolding lnx e1 e2 e3 by linarith
  also have "\<dots> \<le> 1 / 2 ^ 48" by (simp add: u_def)
  finally have close: "\<bar>ln y - ln x\<bar> \<le> 1 / 2 ^ 48" .
  have "\<bar>y - x\<bar> \<le> x * (2 * (1 / 2 ^ 48))"
    using x y(1) close by (intro from_ln_close) simp_all
  then have "\<bar>y - x\<bar> \<le> x / 2 ^ 47" by simp
  then show ?thesis
    by (simp only: y_def od_def rate_def det_def ph_def x_def d_def P_def)
qed


lemma binary64_nonpos: "r \<le> 0 \<Longrightarrow> binary64 r \<le> 0"
proof -
  assume r: "r \<le> 0"
  have "\<bar>binary64 r - r\<bar> \<le> - r / 2 ^ 53" using binary64_error [of r] r by simp
  moreover have "- r / 2 ^ 53 \<le> - r" using r by (simp add: field_simps)
  ultimately show ?thesis by linarith
qed

lemma binary64_pos: "0 < r \<Longrightarrow> 0 < binary64 r"
  using binary64_ln [of r] by simp

lemma binary64_0 [simp]: "binary64 0 = 0"
  by (simp add: binary64_def)

lemma binary64_1 [simp]: "binary64 1 = 1"
  using binary64_int [of 1] by simp

lemma binary64_numeral: "\<bar>numeral n :: int\<bar> < 2 ^ 53 \<Longrightarrow> binary64 (numeral n) = numeral n"
  using binary64_int [of "numeral n"] by simp

lemma binary64_scaled:
  assumes "2 ^ 52 \<le> \<bar>r\<bar> * 2 ^ k" "\<bar>r\<bar> * 2 ^ k < 2 ^ 53"
  shows "binary64 r = of_int (roundEven (r * 2 ^ k)) / 2 ^ k"
proof -
  have p: "(2::real) powr of_int (52 - int k) = 2 ^ 52 / 2 ^ k"
    by (simp add: powr_diff powr_realpow)
  have p1: "(2::real) powr of_int (52 - int k + 1) = 2 ^ 53 / 2 ^ k"
    by (simp add: powr_diff powr_add powr_realpow)
  have q: "(2::real) powr of_int (52 - int k - 52) = 1 / 2 ^ k"
    by (simp add: powr_minus powr_realpow divide_inverse)
  have a: "2 powr of_int (52 - int k) \<le> \<bar>r\<bar>"
    unfolding p using assms(1) by (simp add: field_simps)
  have b: "\<bar>r\<bar> < 2 powr of_int (52 - int k + 1)"
    unfolding p1 using assms(2) by (simp add: field_simps)
  show ?thesis using binary64_eval [OF a b] unfolding q by simp
qed

lemma roundedPow_accurate:
  "\<forall>p. - 2 \<le> p \<and> p \<le> 2 \<longrightarrow> \<bar>roundedPow 2 p - 2 powr p\<bar> \<le> 2 powr p / 2 ^ 50"
proof (intro allI impI)
  fix p :: real
  have "\<bar>roundedPow 2 p - 2 powr p\<bar> \<le> \<bar>2 powr p\<bar> / 2 ^ 53"
    unfolding roundedPow_def by (rule binary64_error)
  also have "\<dots> \<le> 2 powr p / 2 ^ 50" by (simp add: field_simps)
  finally show "\<bar>roundedPow 2 p - 2 powr p\<bar> \<le> 2 powr p / 2 ^ 50" .
qed

lemma roundedPow_0 [simp]: "roundedPow 2 0 = 1"
  by (simp add: roundedPow_def)

lemma roundedPow_1 [simp]: "roundedPow 2 1 = 2"
  using binary64_int [of 2] by (simp add: roundedPow_def)

section \<open>Lemmas on rendering, preview and download\<close>

lemma riffHeader_channels: "take 2 (drop 22 (riffHeader d f r c b)) = le16 c"
  by (simp add: riffHeader_def Let_def ascii_def le32_def le16_def)

lemma riffHeader_silence:
  "riffHeader 88200 1 44100 1 16 =
     map Byte [82, 73, 70, 70, 172, 88, 1, 0, 87, 65, 86, 69, 102, 109, 116, 32,
               16, 0, 0, 0, 1, 0, 1, 0, 68, 172, 0, 0, 136, 88, 1, 0, 2, 0, 16, 0,
               100, 97, 116, 97, 136, 88, 1, 0]"
  by (simp add: riffHeader_def Let_def ascii_def le32_def le16_def)

lemma length_wavData:
  "length (wavData float32 samples) = length samples * (if float32 then 4 else 2)"
  by (simp add: wavData_def length_float32Bytes length_pcm16Bytes)

lemma renders_silentRendering: "renders ctx (silentRendering ctx)"
  by (simp add: renders_def silentRendering_def numberOfChannels_def list_all_length)

lemma configureRendering_empty:
  "region_end st - region_start st \<le> 0 \<Longrightarrow> configureRendering Math_pow st = Inr None"
  by (simp add: configureRendering_def Let_def binary64_nonpos)

lemma processAudioRegion_empty:
  "region_end st - region_start st \<le> 0 \<Longrightarrow>
   processAudioRegion Math_pow startRendering st = Inr None"
  by (simp add: processAudioRegion_def configureRendering_empty)

lemma trunc_nat [simp]: "trunc (real n) = int n"
  by (simp add: trunc_def)

lemma ToUint32_small: "n < 4294967296 \<Longrightarrow> ToUint32 (real n) = n"
  by (simp add: ToUint32_def)

lemma contextLength_stereoPair:
  "contextLength roundedPow ((initialState stereoPair 0 (1 / 4000))\<lparr>exportFormat := fmt\<rparr>) = 2"
proof -
  have d: "binary64 (1 / 4000) = 1152921504606847 / 4611686018427387904"
    using binary64_scaled [of "1 / 4000" 64] by (simp add: roundEven_def Let_def)
  have d': "binary64 (1152921504606847 / 4611686018427387904)
      = 1152921504606847 / 4611686018427387904"
    using binary64_dyadic [of 1152921504606847 62] by simp
  have y: "binary64 (144115188075855875 / 72057594037927936) = 2"
    using binary64_scaled [of "144115188075855875 / 72057594037927936" 51]
    by (simp add: roundEven_def Let_def)
  show ?thesis
    by (simp add: contextLength_def outputDuration64_def initialState_def stereoPair_def
        Let_def d d' y)
qed

lemma processAudioRegion_stereoPair:
  "processAudioRegion roundedPow silentRendering
     ((initialState stereoPair 0 (1 / 4000))\<lparr>exportFormat := fmt\<rparr>) =
   Inr (Some \<lparr>sampleRate = 8000, frames = 2,
              channelData = [[Num 0, Num 0], [Num 0, Num 0]]\<rparr>)"
proof -
  have len: "ToUint32 2 = 2" using ToUint32_small [of 2] by simp
  have d: "0 < binary64 (1 / 4000)" by (rule binary64_pos) simp
  have nd: "\<not> binary64 (1 / 4000) \<le> 0" "\<not> binary64 (1 / 4000) < 0" using d by simp_all
  have st: "audioBuffer ((initialState stereoPair 0 (1 / 4000))\<lparr>exportFormat := fmt\<rparr>) = stereoPair"
    "region_start ((initialState stereoPair 0 (1 / 4000))\<lparr>exportFormat := fmt\<rparr>) = 0"
    "region_end ((initialState stereoPair 0 (1 / 4000))\<lparr>exportFormat := fmt\<rparr>) = 1 / 4000"
    by (simp_all add: initialState_def)
  have g: "gainAutomation ((initialState stereoPair 0 (1 / 4000))\<lparr>exportFormat := fmt\<rparr>) =
      Inr [SetValue 0 0, LinearRamp 1 (1 / 8000), SetValue 1 (1 / 8000), LinearRamp 0 (1 / 4000)]"
    by (simp add: gainAutomation_def initialState_def Let_def outputDuration_def
        setValueAtTime_def linearRampToValueAtTime_def)
  show ?thesis
    unfolding processAudioRegion_def configureRendering_def Let_def contextLength_stereoPair st g
    by (simp add: nd stereoPair_def numberOfChannels_def newOfflineAudioContext_def len
        startSource_def silentRendering_def numeral_2_eq_2)
qed

lemma outputDuration_pos:
  assumes "region_start st < region_end st" "0 < speed st"
  shows "0 < outputDuration st"
  using assms by (simp add: outputDuration_def Let_def)

lemma gainAutomation_events:
  assumes D: "0 < outputDuration st"
  shows "gainAutomation st =
     Inr ([SetValue 0 0] @
          (if 0 < fadeInDuration st
           then [LinearRamp (volume st) (min (fadeInDuration st) (outputDuration st / 2))]
           else [SetValue (volume st) 0]) @
          (if 0 < fadeOutDuration st
           then [SetValue (volume st)
                   (outputDuration st - min (fadeOutDuration st) (outputDuration st / 2)),
                 LinearRamp 0 (outputDuration st)]
           else []))"
proof -
  let ?D = "outputDuration st"
  let ?fi = "min (fadeInDuration st) (?D / 2)"
  let ?fo = "min (fadeOutDuration st) (?D / 2)"
  have half: "0 < ?D / 2" using D by simp
  have fo_le: "?fo \<le> ?D / 2" by simp
  have fi_le: "?fi \<le> ?D / 2" by simp
  have fos_ge: "?D / 2 \<le> ?D - ?fo" using fo_le by linarith
  have fos0: "0 \<le> ?D - ?fo" using fos_ge half by linarith
  have fi_fos: "?fi \<le> ?D - ?fo" using fi_le fos_ge by linarith
  have fos_D: "?D - ?fo \<le> ?D" if "0 < fadeOutDuration st" using that half by (simp add: min_def)
  have fi0: "0 \<le> ?fi" if "0 < fadeInDuration st" using that half by (simp add: min_def)
  show ?thesis
  proof (cases "0 < fadeInDuration st")
    case inT: True
    show ?thesis
    proof (cases "0 < fadeOutDuration st")
      case True
      then show ?thesis
        using inT fi0 [OF inT] fos0 fi_fos fos_D [OF True] D
        by (simp add: gainAutomation_def Let_def setValueAtTime_def linearRampToValueAtTime_def
            not_less)
    next
      case False
      then show ?thesis
        using inT fi0 [OF inT]
        by (simp add: gainAutomation_def Let_def setValueAtTime_def linearRampToValueAtTime_def
            not_less)
    qed
  next
    case inF: False
    show ?thesis
    proof (cases "0 < fadeOutDuration st")
      case True
      then show ?thesis
        using inF fos0 fos_D [OF True] D
        by (simp add: gainAutomation_def Let_def setValueAtTime_def linearRampToValueAtTime_def
            not_less)
    next
      case False
      then show ?thesis
        using inF
        by (simp add: gainAutomation_def Let_def setValueAtTime_def linearRampToValueAtTime_def
            not_less)
    qed
  qed
qed



lemma ToUint32_floor:
  assumes "0 \<le> x" "x < 4294967296"
  shows "int (ToUint32 x) = \<lfloor>x\<rfloor>"
proof -
  have "0 \<le> \<lfloor>x\<rfloor>" using assms(1) by simp
  moreover have "\<lfloor>x\<rfloor> < 4294967296" using assms(2) by (simp add: floor_less_iff)
  ultimately have "\<lfloor>x\<rfloor> mod 4294967296 = \<lfloor>x\<rfloor>" by simp
  then show ?thesis using assms(1) \<open>0 \<le> \<lfloor>x\<rfloor>\<close> by (simp add: ToUint32_def trunc_def)
qed

lemma floor_round_near:
  fixes x y :: real
  assumes "\<bar>y - x\<bar> \<le> 1 / 4"
  shows "\<bar>\<lfloor>y\<rfloor> - round x\<bar> \<le> 1"
proof -
  have "y \<le> x + 1 / 2" using assms by linarith
  then have a: "\<lfloor>y\<rfloor> \<le> \<lfloor>x + 1 / 2\<rfloor>" by (rule floor_mono)
  have "x + 1 / 2 \<le> y + 1" using assms by linarith
  then have "\<lfloor>x + 1 / 2\<rfloor> \<le> \<lfloor>y + 1\<rfloor>" by (rule floor_mono)
  then have b: "\<lfloor>x + 1 / 2\<rfloor> \<le> \<lfloor>y\<rfloor> + 1" by simp
  from a b show ?thesis by (simp add: round_def)
qed

lemma configureRendering_region:
  assumes region: "0 \<le> region_start st" "region_start st < region_end st"
  shows "configureRendering Math_pow st =
     (if numberOfChannels (audioBuffer st) = 0 \<or> ToUint32 (contextLength Math_pow st) = 0
      then Inl NotSupportedError
      else (case gainAutomation st of
              Inl e \<Rightarrow> Inl e
            | Inr gain \<Rightarrow>
                Inr (Some \<lparr>ctx_numberOfChannels = numberOfChannels (audioBuffer st),
                           ctx_length = ToUint32 (contextLength Math_pow st),
                           ctx_sampleRate = sampleRate (audioBuffer st),
                           source_buffer = audioBuffer st,
                           source_playbackRate = speed st,
                           source_detune = pitch st * 100,
                           source_when = 0,
                           source_offset = region_start st,
                           source_duration = binary64 (region_end st - region_start st),
                           gain_events = gain\<rparr>)))"
proof -
  have d: "0 < binary64 (region_end st - region_start st)"
    using region(2) by (intro binary64_pos) simp
  then have nd: "\<not> binary64 (region_end st - region_start st) \<le> 0"
    "\<not> binary64 (region_end st - region_start st) < 0" by simp_all
  show ?thesis using region(1)
    by (simp add: configureRendering_def Let_def newOfflineAudioContext_def startSource_def nd
        and_then_def split: sum.splits)
qed

lemma expectedSamples_nonneg:
  assumes "region_start st < region_end st" "0 < speed st"
  shows "0 \<le> expectedSamples st"
  using assms by (simp add: expectedSamples_def)

lemma configureRendering_Some:
  assumes cfg: "configureRendering Math_pow st = Inr (Some ctx)"
  shows "ctx_length ctx = ToUint32 (contextLength Math_pow st) \<and>
         gainAutomation st = Inr (gain_events ctx)"
  using cfg
  by (auto simp add: configureRendering_def Let_def newOfflineAudioContext_def startSource_def
      and_then_def split: if_splits sum.splits)

lemma contextLength_error:
  assumes region: "region_start st < region_end st"
    and speed: "1 / 2 \<le> speed st" "speed st \<le> 2"
    and pitch: "- 12 \<le> pitch st" "pitch st \<le> 12"
    and pow: "\<forall>p. - 2 \<le> p \<and> p \<le> 2 \<longrightarrow> \<bar>Math_pow 2 p - 2 powr p\<bar> \<le> 2 powr p / 2 ^ 50"
  shows "\<bar>contextLength Math_pow st - expectedSamples st\<bar> \<le> expectedSamples st / 2 ^ 47"
  using length_error [where pow = Math_pow and sr = "sampleRate (audioBuffer st)",
      OF region speed pitch pow]
  by (simp add: contextLength_def outputDuration64_def expectedSamples_def Let_def)

section \<open>The claims\<close>

text \<open>
  C1, as amended. Let \<open>x\<close> be \<open>(end - start) / (speed * 2^(pitch/12)) * sampleRate\<close> and \<open>y\<close> the
  length that \<open>processAudioRegion\<close> asks of the context, which is the same expression
  in double arithmetic, rounded at every operation. For a region with
  \<open>0 \<le> start < end\<close>, a speed in \<open>[0.5, 2]\<close>, a pitch in \<open>[-12, 12]\<close>, a
  \<open>Math.pow\<close> with a relative error of at most \<open>2^-50\<close>, a buffer with a channel, a
  platform whose \<open>startRendering\<close> returns a buffer of the context's length, and
  \<open>x\<close> at most \<open>2^32 - 1\<close>, the largest length of a context: \<open>y\<close> is within
  \<open>2^-15\<close> of \<open>x\<close>; for \<open>y\<close> below 1 the context is refused and nothing is rendered;
  otherwise a buffer of exactly \<open>floor y\<close> samples per channel is rendered, with the
  source's sample rate and channel count; and every buffer rendered has a length within 1
  of \<open>round x\<close>. Speed and pitch enter only through the one rate
  \<open>speed * 2^(pitch/12)\<close>.
\<close>

theorem rendered_length:
  assumes region: "0 \<le> region_start st" "region_start st < region_end st"
    and speed: "1 / 2 \<le> speed st" "speed st \<le> 2"
    and pitch: "- 12 \<le> pitch st" "pitch st \<le> 12"
    and pow: "\<forall>p. - 2 \<le> p \<and> p \<le> 2 \<longrightarrow> \<bar>Math_pow 2 p - 2 powr p\<bar> \<le> 2 powr p / 2 ^ 50"
    and channels: "channelData (audioBuffer st) \<noteq> []"
    and platform: "\<forall>ctx. renders ctx (startRendering ctx)"
    and range: "expectedSamples st \<le> 4294967295"
  shows "\<bar>contextLength Math_pow st - expectedSamples st\<bar> \<le> 1 / 32768
       \<and> (contextLength Math_pow st < 1 \<longrightarrow>
            processAudioRegion Math_pow startRendering st = Inl NotSupportedError)
       \<and> (1 \<le> contextLength Math_pow st \<longrightarrow>
           (\<exists>buffer. processAudioRegion Math_pow startRendering st = Inr (Some buffer) \<and>
                     int (frames buffer) = \<lfloor>contextLength Math_pow st\<rfloor> \<and>
                     sampleRate buffer = sampleRate (audioBuffer st) \<and>
                     numberOfChannels buffer = numberOfChannels (audioBuffer st)))
       \<and> (\<forall>buffer. processAudioRegion Math_pow startRendering st = Inr (Some buffer) \<longrightarrow>
             \<bar>int (frames buffer) - round (expectedSamples st)\<bar> \<le> 1)"
proof -
  let ?x = "expectedSamples st"
  let ?y = "contextLength Math_pow st"
  have sp: "0 < speed st" using speed(1) by linarith
  have x0: "0 \<le> ?x" using region(2) sp by (rule expectedSamples_nonneg)
  have err: "\<bar>?y - ?x\<bar> \<le> ?x / 2 ^ 47"
    using region(2) speed pitch pow by (rule contextLength_error)
  have "?x / 2 ^ 47 \<le> 4294967295 / 2 ^ 47" using range by (simp add: divide_right_mono)
  also have "\<dots> \<le> (1 / 32768 :: real)" by simp
  finally have close: "\<bar>?y - ?x\<bar> \<le> 1 / 32768" using err by linarith
  have "?x / 2 ^ 47 \<le> ?x" using x0 by (simp add: field_simps)
  then have y0: "0 \<le> ?y" using err by linarith
  have ylt: "?y < 4294967296" using close range by linarith
  have len: "int (ToUint32 ?y) = \<lfloor>?y\<rfloor>" using y0 ylt by (rule ToUint32_floor)
  have frames: "frames (startRendering ctx) = ctx_length ctx" for ctx
    using platform by (simp add: renders_def)
  have D: "0 < outputDuration st" using region(2) sp by (rule outputDuration_pos)
  have refused: "processAudioRegion Math_pow startRendering st = Inl NotSupportedError"
    if small: "?y < 1"
  proof -
    have "\<lfloor>?y\<rfloor> = 0" using y0 small by (simp add: floor_eq_iff)
    then have "ToUint32 ?y = 0" using len by simp
    then show ?thesis
      by (simp add: processAudioRegion_def configureRendering_region [OF region])
  qed
  have rendered: "\<exists>buffer. processAudioRegion Math_pow startRendering st = Inr (Some buffer) \<and>
                     int (frames buffer) = \<lfloor>?y\<rfloor> \<and>
                     sampleRate buffer = sampleRate (audioBuffer st) \<and>
                     numberOfChannels buffer = numberOfChannels (audioBuffer st)"
    if one: "1 \<le> ?y"
  proof -
    have "1 \<le> \<lfloor>?y\<rfloor>" using one by (simp add: le_floor_iff)
    then have "0 < int (ToUint32 ?y)" using len by linarith
    then have nz: "ToUint32 ?y \<noteq> 0" by simp
    have ch: "numberOfChannels (audioBuffer st) \<noteq> 0"
      using channels by (simp add: numberOfChannels_def)
    obtain ctx where cfg: "configureRendering Math_pow st = Inr (Some ctx)"
      and l: "ctx_length ctx = ToUint32 ?y"
      and r: "ctx_sampleRate ctx = sampleRate (audioBuffer st)"
      and c: "ctx_numberOfChannels ctx = numberOfChannels (audioBuffer st)"
      unfolding configureRendering_region [OF region] gainAutomation_events [OF D]
      using nz ch by simp
    have "processAudioRegion Math_pow startRendering st = Inr (Some (startRendering ctx))"
      by (simp add: processAudioRegion_def cfg)
    moreover have "int (frames (startRendering ctx)) = \<lfloor>?y\<rfloor>"
      using frames [of ctx] l len by simp
    moreover have "sampleRate (startRendering ctx) = sampleRate (audioBuffer st)"
      using platform r by (simp add: renders_def)
    moreover have "numberOfChannels (startRendering ctx) = numberOfChannels (audioBuffer st)"
      using platform c by (simp add: renders_def)
    ultimately show ?thesis by blast
  qed
  have near: "\<bar>int (frames buffer) - round ?x\<bar> \<le> 1"
    if p: "processAudioRegion Math_pow startRendering st = Inr (Some buffer)" for buffer
  proof -
    from p obtain ctx where cfg: "configureRendering Math_pow st = Inr (Some ctx)"
      and b: "buffer = startRendering ctx"
      by (auto simp add: processAudioRegion_def and_then_def split: sum.splits option.splits)
    have "ctx_length ctx = ToUint32 ?y" using configureRendering_Some [OF cfg] by simp
    then have "int (frames buffer) = \<lfloor>?y\<rfloor>" using b frames [of ctx] len by simp
    moreover have "\<bar>?y - ?x\<bar> \<le> 1 / 4" using close by linarith
    ultimately show ?thesis using floor_round_near [of ?y ?x] by simp
  qed
  from close refused rendered near show ?thesis by blast
qed

theorem rendered_length_witness:
  "0 \<le> region_start ((initialState tenSeconds 0 10)\<lparr>pitch := 12\<rparr>)
   \<and> region_start ((initialState tenSeconds 0 10)\<lparr>pitch := 12\<rparr>)
       < region_end ((initialState tenSeconds 0 10)\<lparr>pitch := 12\<rparr>)
   \<and> 1 / 2 \<le> speed ((initialState tenSeconds 0 10)\<lparr>pitch := 12\<rparr>)
   \<and> speed ((initialState tenSeconds 0 10)\<lparr>pitch := 12\<rparr>) \<le> 2
   \<and> - 12 \<le> pitch ((initialState tenSeconds 0 10)\<lparr>pitch := 12\<rparr>)
   \<and> pitch ((initialState tenSeconds 0 10)\<lparr>pitch := 12\<rparr>) \<le> 12
   \<and> channelData (audioBuffer ((initialState tenSeconds 0 10)\<lparr>pitch := 12\<rparr>)) \<noteq> []
   \<and> expectedSamples ((initialState tenSeconds 0 10)\<lparr>pitch := 12\<rparr>) = 220500
   \<and> contextLength roundedPow ((initialState tenSeconds 0 10)\<lparr>pitch := 12\<rparr>) = 220500
   \<and> (\<exists>buffer. processAudioRegion roundedPow silentRendering
                   ((initialState tenSeconds 0 10)\<lparr>pitch := 12\<rparr>) = Inr (Some buffer) \<and>
                 frames buffer = 220500 \<and> bufferDuration buffer = 5)
   \<and> \<lfloor>expectedSamples ((initialState (silentSeconds 30) 0 30)
          \<lparr>speed := 3602879701896397 / 2251799813685248\<rparr>)\<rfloor> = 826874
   \<and> contextLength roundedPow ((initialState (silentSeconds 30) 0 30)
          \<lparr>speed := 3602879701896397 / 2251799813685248\<rparr>) = 826875
   \<and> (\<exists>buffer. processAudioRegion roundedPow silentRendering
                   ((initialState (silentSeconds 30) 0 30)
                      \<lparr>speed := 3602879701896397 / 2251799813685248\<rparr>) = Inr (Some buffer) \<and>
                 frames buffer = 826875)"
proof -
  let ?st = "(initialState tenSeconds 0 10)\<lparr>pitch := 12\<rparr>"
  let ?st' = "(initialState (silentSeconds 30) 0 30)\<lparr>speed := 3602879701896397 / 2251799813685248\<rparr>"
  have platform: "\<forall>ctx. renders ctx (silentRendering ctx)"
    by (simp add: renders_silentRendering)
  have region: "0 \<le> region_start ?st" "region_start ?st < region_end ?st"
    by (simp_all add: initialState_def)
  have speed: "1 / 2 \<le> speed ?st" "speed ?st \<le> 2" by (simp_all add: initialState_def)
  have pitch: "- 12 \<le> pitch ?st" "pitch ?st \<le> 12" by (simp_all add: initialState_def)
  have channels: "channelData (audioBuffer ?st) \<noteq> []"
    by (simp add: initialState_def tenSeconds_def)
  have x: "expectedSamples ?st = 220500"
    by (simp add: expectedSamples_def initialState_def tenSeconds_def)
  have y: "contextLength roundedPow ?st = 220500"
    by (simp add: contextLength_def outputDuration64_def initialState_def tenSeconds_def Let_def
        binary64_numeral)
  have range: "expectedSamples ?st \<le> 4294967295" by (simp add: x)
  have rate: "sampleRate (audioBuffer ?st) = 44100"
    by (simp add: initialState_def tenSeconds_def)
  have a: "\<exists>buffer. processAudioRegion roundedPow silentRendering ?st = Inr (Some buffer) \<and>
                 frames buffer = 220500 \<and> bufferDuration buffer = 5"
  proof -
    from rendered_length [where Math_pow = roundedPow and startRendering = silentRendering,
        OF region speed pitch roundedPow_accurate channels platform range]
    obtain buffer where p: "processAudioRegion roundedPow silentRendering ?st = Inr (Some buffer)"
      and f: "int (frames buffer) = \<lfloor>contextLength roundedPow ?st\<rfloor>"
      and r: "sampleRate buffer = sampleRate (audioBuffer ?st)"
      unfolding y by auto
    have f': "frames buffer = 220500" using f unfolding y by simp
    have r': "sampleRate buffer = 44100" using r rate by simp
    have "bufferDuration buffer = 5" by (simp add: bufferDuration_def f' r')
    with p f' show ?thesis by blast
  qed
  have region': "0 \<le> region_start ?st'" "region_start ?st' < region_end ?st'"
    by (simp_all add: initialState_def)
  have speed': "1 / 2 \<le> speed ?st'" "speed ?st' \<le> 2" by (simp_all add: initialState_def)
  have pitch': "- 12 \<le> pitch ?st'" "pitch ?st' \<le> 12" by (simp_all add: initialState_def)
  have channels': "channelData (audioBuffer ?st') \<noteq> []"
    by (simp add: initialState_def silentSeconds_def)
  have x': "expectedSamples ?st' = 2979131153505583104000 / 3602879701896397"
    by (simp add: expectedSamples_def initialState_def silentSeconds_def)
  have fx': "\<lfloor>expectedSamples ?st'\<rfloor> = 826874" unfolding x' by simp
  have s: "binary64 (3602879701896397 / 2251799813685248) = 3602879701896397 / 2251799813685248"
    using binary64_dyadic [of 3602879701896397 51] by simp
  have od: "binary64 (67553994410557440 / 3602879701896397) = 75 / 4"
    using binary64_scaled [of "67553994410557440 / 3602879701896397" 48]
    by (simp add: roundEven_def Let_def)
  have y': "contextLength roundedPow ?st' = 826875"
    by (simp add: contextLength_def outputDuration64_def initialState_def silentSeconds_def
        Let_def binary64_numeral s od)
  have range': "expectedSamples ?st' \<le> 4294967295" unfolding x' by simp
  have b: "\<exists>buffer. processAudioRegion roundedPow silentRendering ?st' = Inr (Some buffer) \<and>
                 frames buffer = 826875"
  proof -
    from rendered_length [where Math_pow = roundedPow and startRendering = silentRendering,
        OF region' speed' pitch' roundedPow_accurate channels' platform range']
    obtain buffer where p: "processAudioRegion roundedPow silentRendering ?st' = Inr (Some buffer)"
      and f: "int (frames buffer) = \<lfloor>contextLength roundedPow ?st'\<rfloor>"
      unfolding y' by auto
    have "frames buffer = 826875" using f unfolding y' by simp
    with p show ?thesis by blast
  qed
  from region speed pitch channels x y a fx' y' b show ?thesis by blast
qed

text \<open>
  C1 as stated fails in three ways. A region of \<open>1/131072\<close> s at 44100 Hz with the
  initial settings has \<open>x = 11025/32768\<close>, which rounds to 0: the context is refused
  and no buffer is rendered. A region that starts before 0 (the start handle is clamped
  to \<open>end - 0.1\<close>, which is negative for a clip shorter than 0.1 s) has
  \<open>end > start\<close> and \<open>x = 5512.5\<close>, and \<open>source.start\<close> raises \<open>RangeError\<close>. A region of 65536 s at
  speed 0.5 has \<open>x = 5780275200\<close>, beyond the range of the context's length, which
  wraps: the buffer rendered has 1485307904 samples per channel.
\<close>

theorem rendered_length_counterexample:
  "processAudioRegion roundedPow silentRendering (initialState tenSeconds 0 (1 / 131072))
     = Inl NotSupportedError
   \<and> expectedSamples (initialState tenSeconds 0 (1 / 131072)) = 11025 / 32768
   \<and> processAudioRegion roundedPow silentRendering (initialState tenSeconds (- 1 / 16) (1 / 16))
     = Inl RangeError
   \<and> expectedSamples (initialState tenSeconds (- 1 / 16) (1 / 16)) = 11025 / 2
   \<and> map_sum id (map_option frames)
       (processAudioRegion roundedPow silentRendering
          ((initialState (silentSeconds 65536) 0 65536)\<lparr>speed := 1 / 2\<rparr>))
     = Inr (Some 1485307904)
   \<and> expectedSamples ((initialState (silentSeconds 65536) 0 65536)\<lparr>speed := 1 / 2\<rparr>)
     = 5780275200"
proof -
  have g: "gainAutomation (initialState tenSeconds (- 1 / 16) (1 / 16)) =
      Inr [SetValue 0 0, LinearRamp 1 (1 / 16), SetValue 1 (1 / 16), LinearRamp 0 (1 / 8)]"
    by (simp add: gainAutomation_def initialState_def Let_def outputDuration_def
        setValueAtTime_def linearRampToValueAtTime_def)
  have d1: "binary64 (1 / 131072) = 1 / 131072"
    using binary64_dyadic [of 1 17] by simp
  have y1: "binary64 (11025 / 32768) = 11025 / 32768"
    using binary64_dyadic [of 11025 15] by simp
  have a: "processAudioRegion roundedPow silentRendering (initialState tenSeconds 0 (1 / 131072))
      = Inl NotSupportedError"
    by (simp add: processAudioRegion_def configureRendering_def contextLength_def
        outputDuration64_def initialState_def tenSeconds_def Let_def d1 y1
        newOfflineAudioContext_def ToUint32_def trunc_def)
  have d2: "binary64 (1 / 8) = 1 / 8"
    using binary64_dyadic [of 1 3] by simp
  have y2: "binary64 (11025 / 2) = 11025 / 2"
    using binary64_dyadic [of 11025 1] by simp
  have l2: "ToUint32 (11025 / 2) = 5512" by (simp add: ToUint32_def trunc_def)
  have b: "processAudioRegion roundedPow silentRendering
      (initialState tenSeconds (- 1 / 16) (1 / 16)) = Inl RangeError"
    by (simp add: processAudioRegion_def configureRendering_def contextLength_def
        outputDuration64_def initialState_def tenSeconds_def Let_def d2 y2 l2
        newOfflineAudioContext_def numberOfChannels_def startSource_def)
  have h: "binary64 (1 / 2) = 1 / 2"
    using binary64_dyadic [of 1 1] by simp
  have l3: "ToUint32 5780275200 = 1485307904" by (simp add: ToUint32_def trunc_def)
  have g3: "\<exists>events. gainAutomation ((initialState (silentSeconds 65536) 0 65536)\<lparr>speed := 1 / 2\<rparr>)
      = Inr events"
    by (simp add: gainAutomation_def initialState_def Let_def outputDuration_def
        setValueAtTime_def linearRampToValueAtTime_def)
  then obtain events where g3:
    "gainAutomation ((initialState (silentSeconds 65536) 0 65536)\<lparr>speed := 1 / 2\<rparr>) = Inr events"
    by blast
  have y3: "contextLength roundedPow ((initialState (silentSeconds 65536) 0 65536)\<lparr>speed := 1 / 2\<rparr>)
      = 5780275200"
    by (simp add: contextLength_def outputDuration64_def initialState_def silentSeconds_def
        Let_def binary64_numeral h)
  have r3: "0 \<le> region_start ((initialState (silentSeconds 65536) 0 65536)\<lparr>speed := 1 / 2\<rparr>)"
    "region_start ((initialState (silentSeconds 65536) 0 65536)\<lparr>speed := 1 / 2\<rparr>)
       < region_end ((initialState (silentSeconds 65536) 0 65536)\<lparr>speed := 1 / 2\<rparr>)"
    by (simp_all add: initialState_def)
  have n3: "numberOfChannels
      (audioBuffer ((initialState (silentSeconds 65536) 0 65536)\<lparr>speed := 1 / 2\<rparr>)) = 1"
    by (simp add: initialState_def silentSeconds_def numberOfChannels_def)
  have c: "map_sum id (map_option frames)
       (processAudioRegion roundedPow silentRendering
          ((initialState (silentSeconds 65536) 0 65536)\<lparr>speed := 1 / 2\<rparr>))
     = Inr (Some 1485307904)"
    unfolding processAudioRegion_def configureRendering_region [OF r3] y3 l3 g3 n3
    by (simp add: silentRendering_def)
  have x1: "expectedSamples (initialState tenSeconds 0 (1 / 131072)) = 11025 / 32768"
    by (simp add: expectedSamples_def initialState_def tenSeconds_def)
  have x2: "expectedSamples (initialState tenSeconds (- 1 / 16) (1 / 16)) = 11025 / 2"
    by (simp add: expectedSamples_def initialState_def tenSeconds_def)
  have x3: "expectedSamples ((initialState (silentSeconds 65536) 0 65536)\<lparr>speed := 1 / 2\<rparr>)
      = 5780275200"
    by (simp add: expectedSamples_def initialState_def silentSeconds_def)
  from a x1 b x2 c x3 show ?thesis by blast
qed



text \<open>
  C3. For a region whose end is not after its start, \<open>processAudioRegion\<close> returns
  \<open>null\<close> without building a context, and \<open>handleDownload\<close> returns without calling
  either encoder.
\<close>

theorem empty_region_no_output:
  "region_end st - region_start st \<le> 0 \<Longrightarrow>
   configureRendering Math_pow st = Inr None \<and>
   processAudioRegion Math_pow startRendering st = Inr None \<and>
   handleDownload lamejs Math_pow startRendering st = ([], Returned)"
  by (simp add: handleDownload_def processAudioRegion_empty configureRendering_empty)

theorem empty_region_no_output_witness:
  "region_end (initialState stereoPair 3 3) - region_start (initialState stereoPair 3 3) \<le> 0
   \<and> processAudioRegion roundedPow silentRendering (initialState stereoPair 3 3) = Inr None
   \<and> handleDownload (Some echoLame) roundedPow silentRendering
        ((initialState stereoPair 3 3)\<lparr>exportFormat := Mp3\<rparr>) = ([], Returned)
   \<and> handleDownload (Some echoLame) roundedPow silentRendering (initialState stereoPair 3 2)
        = ([], Returned)"
  using empty_region_no_output [where st = "initialState stereoPair 3 3"
      and Math_pow = roundedPow and startRendering = silentRendering
      and lamejs = "Some echoLame"]
    empty_region_no_output [where st = "(initialState stereoPair 3 3)\<lparr>exportFormat := Mp3\<rparr>"
      and Math_pow = roundedPow and startRendering = silentRendering
      and lamejs = "Some echoLame"]
    empty_region_no_output [where st = "initialState stereoPair 3 2"
      and Math_pow = roundedPow and startRendering = silentRendering
      and lamejs = "Some echoLame"]
  by (simp add: initialState_def)

text \<open>
  C4. For every sample \<open>x\<close>, the 16-bit integer that \<open>floatTo16BitPCM\<close> stores is
  \<open>x\<close> clamped to \<open>[-1, 1]\<close>, scaled by 32768 if negative and by 32767 otherwise, and
  truncated; every stored integer (also for \<open>NaN\<close>) lies in \<open>[-32768, 32767]\<close>;
  samples of 1 and above store 32767 and samples of -1 and below store -32768, so
  they clip and do not wrap; and the loop writes these integers, two octets each,
  from the given offset on.
\<close>

theorem floatTo16BitPCM_quantization:
  "ToInt16 (pcm16 (Num x)) = pcm16_spec x
   \<and> - 32768 \<le> ToInt16 (pcm16 v) \<and> ToInt16 (pcm16 v) \<le> 32767
   \<and> (1 \<le> x \<longrightarrow> ToInt16 (pcm16 (Num x)) = 32767)
   \<and> (x \<le> - 1 \<longrightarrow> ToInt16 (pcm16 (Num x)) = - 32768)
   \<and> (offset + 2 * length xs \<le> length view \<longrightarrow>
        floatTo16BitPCM view offset xs =
          Inr (take offset view @ pcm16Bytes xs @ drop (offset + 2 * length xs) view))"
proof -
  have a: "ToInt16 (pcm16 (Num x)) = pcm16_spec x" by (rule ToInt16_pcm16)
  have b: "- 32768 \<le> ToInt16 (pcm16 v) \<and> ToInt16 (pcm16 v) \<le> 32767" by (rule ToInt16_range)
  have c: "ToInt16 (pcm16 (Num x)) = 32767" if "1 \<le> x"
    using that by (simp add: a pcm16_spec_def trunc_def)
  have d: "ToInt16 (pcm16 (Num x)) = - 32768" if "x \<le> - 1"
    using that by (simp add: a pcm16_spec_def trunc_def)
  have e: "floatTo16BitPCM view offset xs =
          Inr (take offset view @ pcm16Bytes xs @ drop (offset + 2 * length xs) view)"
    if "offset + 2 * length xs \<le> length view"
    using floatTo16BitPCM_writes [OF that] by (simp add: pcm16Bytes_def)
  from a b c d e show ?thesis by blast
qed

theorem floatTo16BitPCM_quantization_witness:
  "ToInt16 (pcm16 (Num (3 / 2))) = 32767 \<and> ToInt16 (pcm16 (Num (- 2))) = - 32768
   \<and> ToInt16 (pcm16 (Num (1 / 4))) = 8191 \<and> ToInt16 (pcm16 (Num (- 1 / 4))) = - 8192
   \<and> floatTo16BitPCM (replicate 4 (Byte 0)) 0 [Num (3 / 2), Num (- 2)] =
       Inr (map Byte [255, 127, 0, 128])"
proof -
  note q1 = floatTo16BitPCM_quantization [of "3 / 2" NaN 0 "[Num (3 / 2), Num (- 2)]" "replicate 4 (Byte 0)"]
  note q2 = floatTo16BitPCM_quantization [of "- 2" NaN 0 "[]" "[]"]
  note q3 = floatTo16BitPCM_quantization [of "1 / 4" NaN 0 "[]" "[]"]
  note q4 = floatTo16BitPCM_quantization [of "- 1 / 4" NaN 0 "[]" "[]"]
  have a: "ToInt16 (pcm16 (Num (3 / 2))) = 32767" using q1 by simp
  have b: "ToInt16 (pcm16 (Num (- 2))) = - 32768" using q2 by simp
  have c: "ToInt16 (pcm16 (Num (1 / 4))) = 8191" using q3 by (simp add: pcm16_spec_def trunc_def)
  have d: "ToInt16 (pcm16 (Num (- 1 / 4))) = - 8192" using q4 by (simp add: pcm16_spec_def trunc_def)
  have e: "floatTo16BitPCM (replicate 4 (Byte 0)) 0 [Num (3 / 2), Num (- 2)] =
       Inr (map Byte [255, 127, 0, 128])"
    using q1 by (simp add: pcm16Bytes_def a b int16_le_def)
  from a b c d e show ?thesis by blast
qed

text \<open>
  C5, as amended. For one second of mono silence at 44100 Hz encoded as PCM16, the
  44-byte header is \<open>RIFF\<close>, RIFF size 88236 (octets 172, 88, 1, 0), \<open>WAVE\<close>,
  \<open>fmt \<close>, chunk length 16, format tag 1, channels 1, sample rate 44100, byte rate
  88200, block align 2, bits per sample 16, \<open>data\<close>, data size 88200, every
  multi-byte field little-endian, and 88200 octets of data follow. For every buffer
  with at least one channel the encoder returns the header of \<open>riffHeader\<close> for
  the length of the data that follows it: RIFF size \<open>36 + dataSize\<close>, byte rate
  \<open>sampleRate * blockAlign\<close>, block align \<open>channels * bytesPerSample\<close>.
\<close>

theorem encodeWAV_header:
  "(\<exists>data. audioBufferToWav monoSilence False =
            Inr \<lparr>blob_parts =
                   map Byte [82, 73, 70, 70, 172, 88, 1, 0, 87, 65, 86, 69, 102, 109, 116, 32,
                             16, 0, 0, 0, 1, 0, 1, 0, 68, 172, 0, 0, 136, 88, 1, 0, 2, 0, 16, 0,
                             100, 97, 116, 97, 136, 88, 1, 0] @ data,
                 blob_type = ''audio/wav''\<rparr>
          \<and> length data = 88200)
   \<and> (channelData buffer \<noteq> [] \<longrightarrow>
        (\<exists>data. audioBufferToWav buffer float32 =
           Inr \<lparr>blob_parts =
                  riffHeader (length data) (if float32 then 3 else 1) (sampleRate buffer)
                    (numberOfChannels buffer) (if float32 then 32 else 16) @ data,
                blob_type = ''audio/wav''\<rparr>))"
proof (intro conjI impI)
  let ?b = monoSilence
  have "audioBufferToWav ?b False =
      Inr \<lparr>blob_parts = riffHeader 88200 1 44100 1 16 @ pcm16Bytes (replicate 44100 (Num 0)),
           blob_type = ''audio/wav''\<rparr>"
    using audioBufferToWav_eq [of ?b False]
    by (simp add: monoSilence_def numberOfChannels_def wavData_def Let_def)
  then show "\<exists>data. audioBufferToWav ?b False =
            Inr \<lparr>blob_parts =
                   map Byte [82, 73, 70, 70, 172, 88, 1, 0, 87, 65, 86, 69, 102, 109, 116, 32,
                             16, 0, 0, 0, 1, 0, 1, 0, 68, 172, 0, 0, 136, 88, 1, 0, 2, 0, 16, 0,
                             100, 97, 116, 97, 136, 88, 1, 0] @ data,
                 blob_type = ''audio/wav''\<rparr>
          \<and> length data = 88200"
    by (intro exI [of _ "pcm16Bytes (replicate 44100 (Num 0))"])
      (simp only: riffHeader_silence length_pcm16Bytes length_replicate, simp)
next
  assume ne: "channelData buffer \<noteq> []"
  let ?s = "if numberOfChannels buffer = 2
            then interleave (channelData buffer ! 0) (channelData buffer ! 1)
            else channelData buffer ! 0"
  have "audioBufferToWav buffer float32 =
      Inr \<lparr>blob_parts =
             riffHeader (length (wavData float32 ?s)) (if float32 then 3 else 1) (sampleRate buffer)
               (numberOfChannels buffer) (if float32 then 32 else 16) @ wavData float32 ?s,
           blob_type = ''audio/wav''\<rparr>"
    unfolding audioBufferToWav_eq [OF ne] Let_def length_wavData by simp
  then show "\<exists>data. audioBufferToWav buffer float32 =
           Inr \<lparr>blob_parts =
                  riffHeader (length data) (if float32 then 3 else 1) (sampleRate buffer)
                    (numberOfChannels buffer) (if float32 then 32 else 16) @ data,
                blob_type = ''audio/wav''\<rparr>"
    by blast
qed

theorem encodeWAV_header_witness:
  "channelData \<lparr>sampleRate = 8000, frames = 1, channelData = [[Num 1]]\<rparr> \<noteq> []
   \<and> (\<exists>data. audioBufferToWav
                \<lparr>sampleRate = 8000, frames = 1, channelData = [[Num 1]]\<rparr> False =
              Inr \<lparr>blob_parts = riffHeader (length data) 1 8000 1 16 @ data,
                   blob_type = ''audio/wav''\<rparr>)"
  using encodeWAV_header
    [of "\<lparr>sampleRate = 8000, frames = 1, channelData = [[Num 1]]\<rparr>" False]
  by (simp add: numberOfChannels_def)

text \<open>
  C5 as stated fails: the header written for one second of mono silence is not the
  header with RIFF size 88244.
\<close>

theorem encodeWAV_header_counterexample:
  "wavHeaderOf (audioBufferToWav monoSilence False) \<noteq>
     Inr (ascii ''RIFF'' @ le32 88244 @ ascii ''WAVE'' @ ascii ''fmt '' @ le32 16 @ le16 1 @
          le16 1 @ le32 44100 @ le32 88200 @ le16 2 @ le16 16 @ ascii ''data'' @ le32 88200)"
proof -
  have "audioBufferToWav monoSilence False =
      Inr \<lparr>blob_parts = riffHeader 88200 1 44100 1 16 @ pcm16Bytes (replicate 44100 (Num 0)),
           blob_type = ''audio/wav''\<rparr>"
    using audioBufferToWav_eq [of monoSilence False]
    by (simp add: monoSilence_def numberOfChannels_def wavData_def Let_def)
  then have h: "wavHeaderOf (audioBufferToWav monoSilence False) = Inr (riffHeader 88200 1 44100 1 16)"
    by (simp add: wavHeaderOf_def length_riffHeader)
  show ?thesis
    unfolding h riffHeader_silence by (simp add: ascii_def le32_def le16_def)
qed

text \<open>
  C6, as amended. The Int16 value stored for a sample is the sample clamped to
  \<open>[-1, 1]\<close>, multiplied by 32767.5 and truncated; every stored value lies in
  \<open>[-32767, 32767]\<close>, and the constant differs from the WAV path's, which stores
  -32768 for the sample -1 where this path stores -32767. For a buffer with the
  platform's invariant the adapter creates the encoder for the buffer's channel count,
  hands \<open>encodeBuffer\<close> the converted samples of channel 0 and, exactly when the buffer
  has two channels, those of channel 1, and nothing of any other channel; an error
  raised by the library is raised by the adapter, and otherwise the blob holds the
  octets returned by \<open>encodeBuffer\<close> followed by those returned by \<open>flush\<close>.
\<close>

theorem audioBufferToMp3_conversion:
  "ToInt16 (mp3Sample (Num x)) = mp3Int16_spec x
   \<and> - 32767 \<le> ToInt16 (mp3Sample v) \<and> ToInt16 (mp3Sample v) \<le> 32767
   \<and> ToInt16 (mp3Sample (Num (- 1))) = - 32767 \<and> ToInt16 (pcm16 (Num (- 1))) = - 32768
   \<and> (wf_buffer buffer \<longrightarrow>
        audioBufferToMp3 (Some lame) buffer =
          and_then (Mp3Encoder lame (numberOfChannels buffer) (sampleRate buffer) 192)
            (\<lambda>mp3encoder.
          and_then (encodeBuffer lame mp3encoder
                      (map (\<lambda>x. ToInt16 (mp3Sample x)) (channelData buffer ! 0))
                      (if numberOfChannels buffer = 2
                       then Some (map (\<lambda>x. ToInt16 (mp3Sample x)) (channelData buffer ! 1))
                       else None))
            (\<lambda>(sampleBlock, mp3encoder).
          and_then (flush lame mp3encoder)
            (\<lambda>endBlock.
          Inr \<lparr>blob_parts = map Byte (sampleBlock @ endBlock), blob_type = ''audio/mp3''\<rparr>))))"
proof -
  have a: "ToInt16 (mp3Sample (Num x)) = mp3Int16_spec x" by (rule ToInt16_mp3Sample)
  have b: "- 32767 \<le> ToInt16 (mp3Sample v) \<and> ToInt16 (mp3Sample v) \<le> 32767"
  proof (cases v)
    case (Num y)
    then show ?thesis
      using mp3_value_bounds [of y] by (simp add: ToInt16_mp3Sample mp3Int16_spec_def)
  next
    case NaN
    then show ?thesis by (simp add: mp3Sample_def ToInt16_def)
  qed
  have c: "ToInt16 (mp3Sample (Num (- 1))) = - 32767"
    by (simp add: ToInt16_mp3Sample mp3Int16_spec_def trunc_def ceiling_eq_iff)
  have d: "ToInt16 (pcm16 (Num (- 1))) = - 32768"
    by (simp add: ToInt16_pcm16 pcm16_spec_def trunc_def)
  from a b c d audioBufferToMp3_Some [of buffer lame] show ?thesis by blast
qed

theorem audioBufferToMp3_conversion_witness:
  "wf_buffer stereoPair \<and> wf_buffer threeChannels
   \<and> audioBufferToMp3 (Some echoLame) stereoPair =
       Inr \<lparr>blob_parts = map Byte [255, 0, 1, 0, 2], blob_type = ''audio/mp3''\<rparr>
   \<and> audioBufferToMp3 (Some strictLame) stereoPair =
       Inr \<lparr>blob_parts = map Byte [255, 0, 1, 0, 2], blob_type = ''audio/mp3''\<rparr>
   \<and> audioBufferToMp3 (Some strictLame) threeChannels = Inl TypeError"
proof -
  have w2: "wf_buffer stereoPair" by (simp add: wf_buffer_def stereoPair_def)
  have w3: "wf_buffer threeChannels" by (simp add: wf_buffer_def threeChannels_def)
  have p1: "ToInt16 (mp3Sample (Num 1)) = 32767"
    using audioBufferToMp3_conversion [of 1 NaN stereoPair echoLame]
    by (simp add: mp3Int16_spec_def trunc_def floor_eq_iff)
  have p0: "ToInt16 (mp3Sample (Num 0)) = 0"
    using audioBufferToMp3_conversion [of 0 NaN stereoPair echoLame]
    by (simp add: mp3Int16_spec_def trunc_def)
  have pm: "ToInt16 (mp3Sample (Num (- 1))) = - 32767"
    using audioBufferToMp3_conversion [of 0 NaN stereoPair echoLame] by simp
  have a: "audioBufferToMp3 (Some echoLame) stereoPair =
       Inr \<lparr>blob_parts = map Byte [255, 0, 1, 0, 2], blob_type = ''audio/mp3''\<rparr>"
  proof -
    from audioBufferToMp3_conversion [of 0 NaN stereoPair echoLame] w2
    have "audioBufferToMp3 (Some echoLame) stereoPair =
          and_then (Mp3Encoder echoLame (numberOfChannels stereoPair) (sampleRate stereoPair) 192)
            (\<lambda>mp3encoder.
          and_then (encodeBuffer echoLame mp3encoder
                      (map (\<lambda>x. ToInt16 (mp3Sample x)) (channelData stereoPair ! 0))
                      (if numberOfChannels stereoPair = 2
                       then Some (map (\<lambda>x. ToInt16 (mp3Sample x)) (channelData stereoPair ! 1))
                       else None))
            (\<lambda>(sampleBlock, mp3encoder).
          and_then (flush echoLame mp3encoder)
            (\<lambda>endBlock.
          Inr \<lparr>blob_parts = map Byte (sampleBlock @ endBlock), blob_type = ''audio/mp3''\<rparr>)))"
      by blast
    also have "\<dots> = Inr \<lparr>blob_parts = map Byte [255, 0, 1, 0, 2], blob_type = ''audio/mp3''\<rparr>"
      by (simp add: stereoPair_def numberOfChannels_def echoLame_def p1 p0 pm)
    finally show ?thesis .
  qed
  have b: "audioBufferToMp3 (Some strictLame) stereoPair =
       Inr \<lparr>blob_parts = map Byte [255, 0, 1, 0, 2], blob_type = ''audio/mp3''\<rparr>"
  proof -
    from audioBufferToMp3_conversion [of 0 NaN stereoPair strictLame] w2
    have "audioBufferToMp3 (Some strictLame) stereoPair =
          and_then (Mp3Encoder strictLame (numberOfChannels stereoPair) (sampleRate stereoPair) 192)
            (\<lambda>mp3encoder.
          and_then (encodeBuffer strictLame mp3encoder
                      (map (\<lambda>x. ToInt16 (mp3Sample x)) (channelData stereoPair ! 0))
                      (if numberOfChannels stereoPair = 2
                       then Some (map (\<lambda>x. ToInt16 (mp3Sample x)) (channelData stereoPair ! 1))
                       else None))
            (\<lambda>(sampleBlock, mp3encoder).
          and_then (flush strictLame mp3encoder)
            (\<lambda>endBlock.
          Inr \<lparr>blob_parts = map Byte (sampleBlock @ endBlock), blob_type = ''audio/mp3''\<rparr>)))"
      by blast
    also have "\<dots> = Inr \<lparr>blob_parts = map Byte [255, 0, 1, 0, 2], blob_type = ''audio/mp3''\<rparr>"
      by (simp add: stereoPair_def numberOfChannels_def strictLame_def p1 p0 pm)
    finally show ?thesis .
  qed
  have c: "audioBufferToMp3 (Some strictLame) threeChannels = Inl TypeError"
  proof -
    from audioBufferToMp3_conversion [of 0 NaN threeChannels strictLame] w3
    have "audioBufferToMp3 (Some strictLame) threeChannels =
          and_then (Mp3Encoder strictLame (numberOfChannels threeChannels)
                      (sampleRate threeChannels) 192)
            (\<lambda>mp3encoder.
          and_then (encodeBuffer strictLame mp3encoder
                      (map (\<lambda>x. ToInt16 (mp3Sample x)) (channelData threeChannels ! 0))
                      (if numberOfChannels threeChannels = 2
                       then Some (map (\<lambda>x. ToInt16 (mp3Sample x)) (channelData threeChannels ! 1))
                       else None))
            (\<lambda>(sampleBlock, mp3encoder).
          and_then (flush strictLame mp3encoder)
            (\<lambda>endBlock.
          Inr \<lparr>blob_parts = map Byte (sampleBlock @ endBlock), blob_type = ''audio/mp3''\<rparr>)))"
      by blast
    also have "\<dots> = Inl TypeError"
      by (simp add: threeChannels_def numberOfChannels_def strictLame_def)
    finally show ?thesis .
  qed
  from w2 w3 a b c show ?thesis by blast
qed

text \<open>
  C6 as stated fails for a buffer of three channels whose channel 1 holds the sample -1
  and whose channel 2 holds the sample 0. An encoder that echoes every sample it is
  given receives only channel 0's sample: the blob is the octet 255 of the value 32767,
  followed by the octet that \<open>flush\<close> emits, and it stays the same when the samples of
  channels 1 and 2 are replaced. With a library that insists on a right channel no
  blob is emitted at all.
\<close>

theorem audioBufferToMp3_conversion_counterexample:
  "audioBufferToMp3 (Some echoLame) threeChannels =
     Inr \<lparr>blob_parts = map Byte [255, 3], blob_type = ''audio/mp3''\<rparr>
   \<and> audioBufferToMp3 (Some echoLame)
        (threeChannels\<lparr>channelData := [[Num 1], [Num (1 / 2)], [Num (1 / 4)]]\<rparr>) =
     Inr \<lparr>blob_parts = map Byte [255, 3], blob_type = ''audio/mp3''\<rparr>
   \<and> audioBufferToMp3 (Some strictLame) threeChannels = Inl TypeError"
proof -
  let ?b = "threeChannels\<lparr>channelData := [[Num 1], [Num (1 / 2)], [Num (1 / 4)]]\<rparr>"
  have w3: "wf_buffer threeChannels" by (simp add: wf_buffer_def threeChannels_def)
  have w3': "wf_buffer ?b" by (simp add: wf_buffer_def threeChannels_def)
  have p1: "ToInt16 (mp3Sample (Num 1)) = 32767"
    by (simp add: ToInt16_mp3Sample mp3Int16_spec_def trunc_def floor_eq_iff)
  have a: "audioBufferToMp3 (Some echoLame) threeChannels =
     Inr \<lparr>blob_parts = map Byte [255, 3], blob_type = ''audio/mp3''\<rparr>"
    unfolding audioBufferToMp3_Some [OF w3]
    by (simp add: threeChannels_def numberOfChannels_def echoLame_def p1)
  have b: "audioBufferToMp3 (Some echoLame) ?b =
     Inr \<lparr>blob_parts = map Byte [255, 3], blob_type = ''audio/mp3''\<rparr>"
    unfolding audioBufferToMp3_Some [OF w3']
    by (simp add: threeChannels_def numberOfChannels_def echoLame_def p1)
  have c: "audioBufferToMp3 (Some strictLame) threeChannels = Inl TypeError"
    unfolding audioBufferToMp3_Some [OF w3]
    by (simp add: threeChannels_def numberOfChannels_def strictLame_def)
  from a b c show ?thesis by blast
qed

text \<open>
  C7, as amended. Every blob the MP3 adapter returns carries the MIME type
  \<open>audio/mp3\<close>.
\<close>

theorem audioBufferToMp3_type:
  "audioBufferToMp3 lamejs buffer = Inr blob \<Longrightarrow> blob_type blob = ''audio/mp3''"
  unfolding audioBufferToMp3_def Let_def
  by (auto simp add: and_then_def split: option.splits sum.splits prod.splits if_splits)

theorem audioBufferToMp3_type_witness:
  "blob_type \<lparr>blob_parts = map Byte [255, 0, 1, 0, 2], blob_type = ''audio/mp3''\<rparr> = ''audio/mp3''
   \<and> audioBufferToMp3 (Some echoLame) stereoPair =
       Inr \<lparr>blob_parts = map Byte [255, 0, 1, 0, 2], blob_type = ''audio/mp3''\<rparr>"
proof -
  have w2: "wf_buffer stereoPair" by (simp add: wf_buffer_def stereoPair_def)
  have p1: "ToInt16 (mp3Sample (Num 1)) = 32767"
    by (simp add: ToInt16_mp3Sample mp3Int16_spec_def trunc_def floor_eq_iff)
  have p0: "ToInt16 (mp3Sample (Num 0)) = 0"
    by (simp add: ToInt16_mp3Sample mp3Int16_spec_def trunc_def)
  have pm: "ToInt16 (mp3Sample (Num (- 1))) = - 32767"
    by (simp add: ToInt16_mp3Sample mp3Int16_spec_def trunc_def ceiling_eq_iff)
  have r: "audioBufferToMp3 (Some echoLame) stereoPair =
       Inr \<lparr>blob_parts = map Byte [255, 0, 1, 0, 2], blob_type = ''audio/mp3''\<rparr>"
    unfolding audioBufferToMp3_Some [OF w2]
    by (simp add: stereoPair_def numberOfChannels_def echoLame_def p1 p0 pm)
  from audioBufferToMp3_type [OF r] r show ?thesis by simp
qed

text \<open>
  C7 as stated fails: the blob returned for a stereo buffer does not carry the type
  \<open>audio/mpeg\<close>.
\<close>

theorem audioBufferToMp3_type_counterexample:
  "audioBufferToMp3 (Some echoLame) stereoPair =
     Inr \<lparr>blob_parts = map Byte [255, 0, 1, 0, 2], blob_type = ''audio/mp3''\<rparr>
   \<and> ''audio/mp3'' \<noteq> ''audio/mpeg''"
proof -
  have w2: "wf_buffer stereoPair" by (simp add: wf_buffer_def stereoPair_def)
  have p1: "ToInt16 (mp3Sample (Num 1)) = 32767"
    by (simp add: ToInt16_mp3Sample mp3Int16_spec_def trunc_def floor_eq_iff)
  have p0: "ToInt16 (mp3Sample (Num 0)) = 0"
    by (simp add: ToInt16_mp3Sample mp3Int16_spec_def trunc_def)
  have pm: "ToInt16 (mp3Sample (Num (- 1))) = - 32767"
    by (simp add: ToInt16_mp3Sample mp3Int16_spec_def trunc_def ceiling_eq_iff)
  show ?thesis
    unfolding audioBufferToMp3_Some [OF w2]
    by (simp add: stereoPair_def numberOfChannels_def echoLame_def p1 p0 pm)
qed

text \<open>
  C8. Without the library, \<open>audioBufferToMp3\<close> raises its error whatever the buffer.
  A download in the WAV format does not depend on the library at all: it ends the same
  way without it as with any library. A download in the MP3 format whose region renders
  calls only the MP3 adapter and ends in the \<open>catch\<close> branch: nothing is downloaded
  and the WAV encoder is not called in its place.
\<close>

theorem lamejs_missing:
  "audioBufferToMp3 (None :: 'st Lamejs option) buffer = Inl (Error ''lamejs library not loaded'')
   \<and> (exportFormat st = Wav \<longrightarrow>
        handleDownload (None :: 'st Lamejs option) Math_pow startRendering st =
        handleDownload (lamejs :: 'st Lamejs option) Math_pow startRendering st)
   \<and> (exportFormat st = Mp3 \<longrightarrow>
        processAudioRegion Math_pow startRendering st = Inr (Some processedBuffer) \<longrightarrow>
        handleDownload (None :: 'st Lamejs option) Math_pow startRendering st =
          ([CallAudioBufferToMp3], ExportFailed (Error ''lamejs library not loaded'')))"
  by (simp add: handleDownload_def audioBufferToMp3_None split: sum.splits option.splits)

theorem lamejs_missing_witness:
  "exportFormat (initialState stereoPair 0 (1 / 4000)) = Wav
   \<and> handleDownload (None :: nat Lamejs option) roundedPow silentRendering
        (initialState stereoPair 0 (1 / 4000)) =
       handleDownload (Some echoLame) roundedPow silentRendering
         (initialState stereoPair 0 (1 / 4000))
   \<and> exportFormat ((initialState stereoPair 0 (1 / 4000))\<lparr>exportFormat := Mp3\<rparr>) = Mp3
   \<and> handleDownload (None :: nat Lamejs option) roundedPow silentRendering
        ((initialState stereoPair 0 (1 / 4000))\<lparr>exportFormat := Mp3\<rparr>) =
       ([CallAudioBufferToMp3], ExportFailed (Error ''lamejs library not loaded''))"
  using lamejs_missing [where buffer = stereoPair
      and st = "initialState stereoPair 0 (1 / 4000)" and Math_pow = roundedPow and startRendering = silentRendering
      and lamejs = "Some echoLame"]
    lamejs_missing [where buffer = stereoPair
      and st = "(initialState stereoPair 0 (1 / 4000))\<lparr>exportFormat := Mp3\<rparr>"
      and Math_pow = roundedPow and startRendering = silentRendering and lamejs = "Some echoLame"
      and processedBuffer = "\<lparr>sampleRate = 8000, frames = 2,
              channelData = [[Num 0, Num 0], [Num 0, Num 0]]\<rparr>"]
    processAudioRegion_stereoPair [of Mp3]
  by (simp add: initialState_def)

text \<open>
  C9, as amended. With the preview context open, for every elapsed time up to and
  including the processed buffer's duration \<open>tick\<close> moves the playhead to
  \<open>start + (elapsed / duration) * regionDuration\<close> and requests the next frame; once
  the elapsed time exceeds the duration it returns without moving the playhead and
  without requesting a frame.
\<close>

theorem tick_projection:
  "(elapsed \<le> duration \<longrightarrow>
      tick True (startTime + elapsed) startTime duration start regionDuration =
        Playhead (start + elapsed / duration * regionDuration))
   \<and> (duration < elapsed \<longrightarrow>
      tick True (startTime + elapsed) startTime duration start regionDuration = Stopped)
   \<and> (elapsed \<le> bufferDuration processedBuffer \<longrightarrow>
      previewTick processedBuffer st startTime elapsed =
        Playhead (region_start st +
          elapsed / bufferDuration processedBuffer * (region_end st - region_start st)))
   \<and> (bufferDuration processedBuffer < elapsed \<longrightarrow>
      previewTick processedBuffer st startTime elapsed = Stopped)"
  by (simp add: tick_def previewTick_def)

theorem tick_projection_witness:
  "tick True (10 + 1) 10 2 3 4 = Playhead 5 \<and> tick True (10 + 2) 10 2 3 4 = Playhead 7
   \<and> tick True (10 + 5 / 2) 10 2 3 4 = Stopped
   \<and> previewTick stereoPair (initialState stereoPair 3 7) 10 (1 / 8000) = Playhead 5
   \<and> previewTick stereoPair (initialState stereoPair 3 7) 10 (1 / 2000) = Stopped"
proof -
  have d: "bufferDuration stereoPair = 1 / 4000"
    by (simp add: bufferDuration_def stereoPair_def)
  show ?thesis
    using tick_projection [where elapsed = 1 and duration = 2 and processedBuffer = stereoPair
        and st = "initialState stereoPair 3 7" and startTime = 10 and start = 3
        and regionDuration = 4]
      tick_projection [where elapsed = 2 and duration = 2 and processedBuffer = stereoPair
        and st = "initialState stereoPair 3 7" and startTime = 10 and start = 3
        and regionDuration = 4]
      tick_projection [where elapsed = "5 / 2" and duration = 2 and processedBuffer = stereoPair
        and st = "initialState stereoPair 3 7" and startTime = 10 and start = 3
        and regionDuration = 4]
      tick_projection [where elapsed = "1 / 8000" and duration = 2 and processedBuffer = stereoPair
        and st = "initialState stereoPair 3 7" and startTime = 10 and start = 3
        and regionDuration = 4]
      tick_projection [where elapsed = "1 / 2000" and duration = 2 and processedBuffer = stereoPair
        and st = "initialState stereoPair 3 7" and startTime = 10 and start = 3
        and regionDuration = 4]
    by (simp add: d initialState_def)
qed

text \<open>
  C9 as stated fails: when the elapsed time equals the duration (here 2 seconds, for a
  region from 0 to 4), \<open>tick\<close> still moves the playhead, to the region's end, and
  requests another frame.
\<close>

theorem tick_counterexample:
  "tick True 2 0 2 0 4 = Playhead 4 \<and> tick True 2 0 2 0 4 \<noteq> Stopped"
  by (simp add: tick_def)

text \<open>
  C10. With exactly two channels (of equal length, as in every \<open>AudioBuffer\<close>) the
  data written after the 44-byte header is the frame-by-frame interleaving of channel
  0 and channel 1; with any other channel count it is channel 0 alone. In both cases
  octets 22 and 23 of the header hold the buffer's full channel count, so a buffer of
  more than two channels gives a file that declares them all and carries one.
\<close>

theorem audioBufferToWav_channels:
  "(numberOfChannels buffer = 2 \<longrightarrow>
      length (channelData buffer ! 0) = length (channelData buffer ! 1) \<longrightarrow>
      (\<exists>header. length header = 44 \<and> take 2 (drop 22 header) = le16 2 \<and>
         audioBufferToWav buffer float32 =
           Inr \<lparr>blob_parts = header @
                    wavData float32
                      (frameInterleaved (channelData buffer ! 0) (channelData buffer ! 1)),
                blob_type = ''audio/wav''\<rparr>))
   \<and> (numberOfChannels buffer \<noteq> 2 \<longrightarrow> channelData buffer \<noteq> [] \<longrightarrow>
      (\<exists>header. length header = 44 \<and>
         take 2 (drop 22 header) = le16 (numberOfChannels buffer) \<and>
         audioBufferToWav buffer float32 =
           Inr \<lparr>blob_parts = header @ wavData float32 (channelData buffer ! 0),
                blob_type = ''audio/wav''\<rparr>))"
proof (intro conjI impI)
  assume two: "numberOfChannels buffer = 2"
    and len: "length (channelData buffer ! 0) = length (channelData buffer ! 1)"
  from two have ne: "channelData buffer \<noteq> []" by (auto simp add: numberOfChannels_def)
  let ?s = "frameInterleaved (channelData buffer ! 0) (channelData buffer ! 1)"
  let ?h = "riffHeader (length ?s * ((if float32 then 32 else 16) div 8))
              (if float32 then 3 else 1) (sampleRate buffer) 2 (if float32 then 32 else 16)"
  have "audioBufferToWav buffer float32 =
      Inr \<lparr>blob_parts = ?h @ wavData float32 ?s, blob_type = ''audio/wav''\<rparr>"
    unfolding audioBufferToWav_eq [OF ne] Let_def using two interleave_frames [OF len] by simp
  moreover have "length ?h = 44" by (rule length_riffHeader)
  moreover have "take 2 (drop 22 ?h) = le16 2" by (rule riffHeader_channels)
  ultimately show "\<exists>header. length header = 44 \<and> take 2 (drop 22 header) = le16 2 \<and>
         audioBufferToWav buffer float32 =
           Inr \<lparr>blob_parts = header @ wavData float32 ?s, blob_type = ''audio/wav''\<rparr>"
    by blast
next
  assume other: "numberOfChannels buffer \<noteq> 2" and ne: "channelData buffer \<noteq> []"
  let ?s = "channelData buffer ! 0"
  let ?h = "riffHeader (length ?s * ((if float32 then 32 else 16) div 8))
              (if float32 then 3 else 1) (sampleRate buffer) (numberOfChannels buffer)
              (if float32 then 32 else 16)"
  have "audioBufferToWav buffer float32 =
      Inr \<lparr>blob_parts = ?h @ wavData float32 ?s, blob_type = ''audio/wav''\<rparr>"
    unfolding audioBufferToWav_eq [OF ne] Let_def using other by simp
  moreover have "length ?h = 44" by (rule length_riffHeader)
  moreover have "take 2 (drop 22 ?h) = le16 (numberOfChannels buffer)"
    by (rule riffHeader_channels)
  ultimately show "\<exists>header. length header = 44 \<and>
         take 2 (drop 22 header) = le16 (numberOfChannels buffer) \<and>
         audioBufferToWav buffer float32 =
           Inr \<lparr>blob_parts = header @ wavData float32 ?s, blob_type = ''audio/wav''\<rparr>"
    by blast
qed

theorem audioBufferToWav_channels_witness:
  "(\<exists>header. length header = 44 \<and> take 2 (drop 22 header) = map Byte [2, 0] \<and>
      audioBufferToWav stereoPair False =
        Inr \<lparr>blob_parts = header @ map Byte [255, 127, 0, 128, 0, 0, 0, 0],
             blob_type = ''audio/wav''\<rparr>)
   \<and> (\<exists>header. length header = 44 \<and> take 2 (drop 22 header) = map Byte [3, 0] \<and>
      audioBufferToWav threeChannels False =
        Inr \<lparr>blob_parts = header @ map Byte [255, 127], blob_type = ''audio/wav''\<rparr>)"
proof -
  have p1: "ToInt16 (pcm16 (Num 1)) = 32767"
    by (simp add: ToInt16_pcm16 pcm16_spec_def trunc_def)
  have p0: "ToInt16 (pcm16 (Num 0)) = 0"
    by (simp add: ToInt16_pcm16 pcm16_spec_def trunc_def)
  have pm: "ToInt16 (pcm16 (Num (- 1))) = - 32768"
    by (simp add: ToInt16_pcm16 pcm16_spec_def trunc_def)
  have n2: "numberOfChannels stereoPair = 2"
    by (simp add: stereoPair_def numberOfChannels_def)
  have n3: "numberOfChannels threeChannels = 3"
    by (simp add: threeChannels_def numberOfChannels_def)
  have d2: "wavData False (frameInterleaved (channelData stereoPair ! 0) (channelData stereoPair ! 1))
      = map Byte [255, 127, 0, 128, 0, 0, 0, 0]"
    by (simp add: stereoPair_def frameInterleaved_def wavData_def pcm16Bytes_def p1 p0 pm
        int16_le_def)
  have d3: "wavData False (channelData threeChannels ! 0) = map Byte [255, 127]"
    by (simp add: threeChannels_def wavData_def pcm16Bytes_def p1 int16_le_def)
  have l2: "length (channelData stereoPair ! 0) = length (channelData stereoPair ! 1)"
    by (simp add: stereoPair_def)
  have ne3: "channelData threeChannels \<noteq> []" by (simp add: threeChannels_def)
  have a: "\<exists>header. length header = 44 \<and> take 2 (drop 22 header) = map Byte [2, 0] \<and>
      audioBufferToWav stereoPair False =
        Inr \<lparr>blob_parts = header @ map Byte [255, 127, 0, 128, 0, 0, 0, 0],
             blob_type = ''audio/wav''\<rparr>"
    using audioBufferToWav_channels [of stereoPair False] n2 l2
    unfolding d2 by (simp add: le16_def)
  have b: "\<exists>header. length header = 44 \<and> take 2 (drop 22 header) = map Byte [3, 0] \<and>
      audioBufferToWav threeChannels False =
        Inr \<lparr>blob_parts = header @ map Byte [255, 127], blob_type = ''audio/wav''\<rparr>"
    using audioBufferToWav_channels [of threeChannels False] n3 ne3
    unfolding d3 by (simp add: le16_def)
  from a b show ?thesis by blast
qed

end
